theory Spec2Isabelle
  imports Main "HOL-Library.Word" "HOL-Library.List_Lexorder" "HOL-Library.Monad_Syntax"
begin

unbundle bit_operations_syntax

section \<open>NodeId (src/kademlia/nodeId.hpp)\<close>

text \<open>
  A \<^verbatim>\<open>NodeId\<close> wraps \<^verbatim>\<open>std::array<uint8_t, NODE_ID_LEN>\<close>. The model is the
  list of its bytes, most significant first; a well-formed identifier has exactly
  \<open>NODE_ID_LEN\<close> bytes.
\<close>

type_synonym uint8_t = "8 word"
type_synonym NodeId = "uint8_t list"

definition NODE_ID_LEN :: nat where
  "NODE_ID_LEN = 20"

text \<open>\<^verbatim>\<open>NodeId{}\<close> and \<^verbatim>\<open>NodeId::zero()\<close>: the value-initialised array.\<close>

definition NodeId_zero :: NodeId where
  "NodeId_zero = replicate NODE_ID_LEN 0"

text \<open>\<^verbatim>\<open>std::transform\<close> over both arrays with \<^verbatim>\<open>std::bit_xor<uint8_t>\<close>.\<close>

definition distanceTo :: "NodeId \<Rightarrow> NodeId \<Rightarrow> NodeId" where
  "distanceTo a other = map2 (XOR) a other"

text \<open>
  \<^verbatim>\<open>std::ranges::find_if_not\<close>, as the offset of the returned iterator from
  \<^verbatim>\<open>begin()\<close>; the offset of \<^verbatim>\<open>end()\<close> is the length.
\<close>

fun find_if_not :: "('a \<Rightarrow> bool) \<Rightarrow> 'a list \<Rightarrow> nat" where
  "find_if_not P [] = 0"
| "find_if_not P (x # xs) = (if P x then Suc (find_if_not P xs) else 0)"

text \<open>
  \<^verbatim>\<open>std::countl_zero\<close> on a \<^verbatim>\<open>uint8_t\<close>: the number of consecutive zero bits
  starting from bit 7.
\<close>

definition countl_zero :: "uint8_t \<Rightarrow> nat" where
  "countl_zero b = length (takeWhile (\<lambda>i. \<not> bit b i) [7, 6, 5, 4, 3, 2, 1, 0])"

text \<open>The identifier read as an unsigned 160-bit integer, most significant byte first
  (used to state the order of identifiers as an unsigned compare).\<close>

definition NodeId_value :: "NodeId \<Rightarrow> nat" where
  "NodeId_value a = foldl (\<lambda>acc byte. acc * 256 + unat byte) 0 a"

definition logDistance :: "NodeId \<Rightarrow> NodeId \<Rightarrow> nat" where
  "logDistance a other =
     (let xorDistance = distanceTo a other;
          it = find_if_not (\<lambda>b. b = 0) xorDistance
      in if it = length xorDistance then 0
         else (length xorDistance - it - 1) * 8 + (7 - countl_zero (xorDistance ! it)))"


text \<open>
  \<^verbatim>\<open>NodeId::toString\<close>: every byte formatted with \<^verbatim>\<open>{:02x}\<close>, two lowercase
  hexadecimal digits, in array order. \<open>hex_digit\<close> is only applied to numbers below
  16.
\<close>

definition hex_digit :: "nat \<Rightarrow> char" where
  "hex_digit n = ''0123456789abcdef'' ! n"

definition NodeId_toString :: "NodeId \<Rightarrow> string" where
  "NodeId_toString a = concat (map (\<lambda>byte. [hex_digit (unat byte div 16), hex_digit (unat byte mod 16)]) a)"

section \<open>DHTError (src/kademlia/dhtError.hpp)\<close>

datatype DHTError =
  Success | PeerNotFound | StaleData | NetworkError | PeerLimitExceeded
  | InvalidPeer | PingFailure | StorageError | LookupFailed

text \<open>
  How a call that returns \<^verbatim>\<open>std::expected<void, DHTError>\<close> can end without a value:
  with \<^verbatim>\<open>std::unexpected(e)\<close>, by a C++ exception leaving the function, or in
  undefined behaviour (an iterator or index out of range).
\<close>

datatype failure = Unexpected DHTError | Thrown | Undefined

section \<open>PeerInfo (src/kademlia/peerInfo.hpp)\<close>

text \<open>
  A \<^verbatim>\<open>system_clock::time_point\<close> is the number of clock ticks since the epoch; the
  default-constructed one is 0. A tick is a nanosecond (the period of the clock in
  libstdc++); \<^verbatim>\<open>std::chrono::seconds\<close> values are converted to ticks where the source
  compares them with a difference of time points. The counts are 64-bit signed integers
  in the source and unbounded integers here: the two agree as long as the time points,
  their differences and the threshold in ticks stay within 64 bits, beyond which the
  source's arithmetic overflows.
\<close>

type_synonym time_point = int
type_synonym seconds = int

definition ticks_per_second :: int where
  "ticks_per_second = 1000000000"

record PeerInfo =
  ipAddress :: string
  port :: "16 word"
  lastSeen :: time_point
  nodeId :: NodeId
  isExpired :: bool

definition isValid :: "PeerInfo \<Rightarrow> bool" where
  "isValid p \<longleftrightarrow> ipAddress p \<noteq> [] \<and> port p > 0 \<and> nodeId p \<noteq> NodeId_zero"

section \<open>KBucket (src/kademlia/kBucket.hpp)\<close>

text \<open>
  Iterators into \<^verbatim>\<open>m_peers\<close> are offsets from \<^verbatim>\<open>begin()\<close>. \<^verbatim>\<open>m_ioCtx\<close> is the bucket's
  private \<^verbatim>\<open>io_context\<close>: the model keeps the completion handlers that \<^verbatim>\<open>pingPeer\<close>
  has registered on it, each as the pair the lambda in \<^verbatim>\<open>add\<close> captures
  (\<^verbatim>\<open>oldestIt\<close>, \<^verbatim>\<open>peer\<close>). Nothing in the repository calls \<^verbatim>\<open>run\<close> or \<^verbatim>\<open>poll\<close> on
  that context, so a registered handler is never invoked.
\<close>

record KBucket =
  m_peers :: "PeerInfo list"
  m_maxSize :: nat
  m_ioCtx :: "(nat \<times> PeerInfo) list"

definition KBucket_init :: "nat \<Rightarrow> KBucket" where
  "KBucket_init maxSize = \<lparr>m_peers = [], m_maxSize = maxSize, m_ioCtx = []\<rparr>"

text \<open>\<^verbatim>\<open>std::ranges::find_if\<close>: the offset of the first match, the length for \<^verbatim>\<open>end()\<close>.\<close>

fun find_if :: "('a \<Rightarrow> bool) \<Rightarrow> 'a list \<Rightarrow> nat" where
  "find_if P [] = 0"
| "find_if P (x # xs) = (if P x then 0 else Suc (find_if P xs))"

text \<open>
  \<^verbatim>\<open>std::ranges::min_element\<close> with a projection: the offset of the first element
  whose projection is smallest (\<^verbatim>\<open>end()\<close>, offset 0, on an empty range).
\<close>

fun min_element_loop :: "('a \<Rightarrow> 'b::linorder) \<Rightarrow> 'a list \<Rightarrow> nat \<Rightarrow> 'b \<Rightarrow> nat \<Rightarrow> nat" where
  "min_element_loop proj [] i smallest it = it"
| "min_element_loop proj (x # xs) i smallest it =
     (if proj x < smallest then min_element_loop proj xs (Suc i) (proj x) i
      else min_element_loop proj xs (Suc i) smallest it)"

definition min_element :: "('a \<Rightarrow> 'b::linorder) \<Rightarrow> 'a list \<Rightarrow> nat" where
  "min_element proj xs = (case xs of [] \<Rightarrow> 0 | x # rest \<Rightarrow> min_element_loop proj rest 1 (proj x) 0)"

text \<open>
  \<^verbatim>\<open>pingPeer\<close> builds the endpoint with \<^verbatim>\<open>boost::asio::ip::make_address\<close>, which throws
  when the string is not an IP literal; the parameter \<open>make_address\<close> says which strings
  it accepts. Otherwise the asynchronous connect is started and its handler waits on
  \<^verbatim>\<open>m_ioCtx\<close>; \<^verbatim>\<open>pingPeer\<close> returns at once.
\<close>

definition pingPeer :: "(string \<Rightarrow> bool) \<Rightarrow> PeerInfo \<Rightarrow> nat \<times> PeerInfo \<Rightarrow> KBucket \<Rightarrow> failure + KBucket" where
  "pingPeer make_address peer callback b =
     (if make_address (ipAddress peer) then Inr (b\<lparr>m_ioCtx := m_ioCtx b @ [callback]\<rparr>)
      else Inl Thrown)"

definition KBucket_add :: "(string \<Rightarrow> bool) \<Rightarrow> PeerInfo \<Rightarrow> KBucket \<Rightarrow> (failure + unit) \<times> KBucket" where
  "KBucket_add make_address peer b =
     (if \<not> isValid peer then (Inl (Unexpected InvalidPeer), b)
      else
        let it = find_if (\<lambda>p. nodeId p = nodeId peer) (m_peers b) in
        if it \<noteq> length (m_peers b) then (Inr (), b\<lparr>m_peers := (m_peers b)[it := peer]\<rparr>)
        else if length (m_peers b) < m_maxSize b then (Inr (), b\<lparr>m_peers := m_peers b @ [peer]\<rparr>)
        else
          let oldestIt = min_element lastSeen (m_peers b) in
          if oldestIt = length (m_peers b) then (Inl Undefined, b)
          else
            (case pingPeer make_address (m_peers b ! oldestIt) (oldestIt, peer) b of
               Inl e \<Rightarrow> (Inl e, b)
             | Inr b' \<Rightarrow> (Inr (), b')))"

text \<open>\<^verbatim>\<open>now\<close> is the reading of \<^verbatim>\<open>system_clock::now()\<close> the call takes.\<close>

definition removeStalePeers :: "time_point \<Rightarrow> seconds \<Rightarrow> KBucket \<Rightarrow> KBucket" where
  "removeStalePeers now staleThreshold b =
     b\<lparr>m_peers := filter (\<lambda>peer. \<not> (now - lastSeen peer \<ge> staleThreshold * ticks_per_second)) (m_peers b)\<rparr>"

definition KBucket_find :: "NodeId \<Rightarrow> KBucket \<Rightarrow> PeerInfo option" where
  "KBucket_find nid b =
     (let it = find_if (\<lambda>peer. nodeId peer = nid) (m_peers b)
      in if it \<noteq> length (m_peers b) then Some (m_peers b ! it) else None)"

definition getAllPeers :: "KBucket \<Rightarrow> PeerInfo list" where
  "getAllPeers b = m_peers b"

definition KBucket_size :: "KBucket \<Rightarrow> nat" where
  "KBucket_size b = length (m_peers b)"

section \<open>RoutingTable (src/kademlia/routingTable.hpp)\<close>

record RoutingTable =
  m_selfNodeId :: NodeId
  m_buckets :: "KBucket list"
  m_bucketSize :: nat

text \<open>
  The constructor builds \<^verbatim>\<open>m_buckets(160)\<close>: 160 default-constructed buckets, each
  with the default \<^verbatim>\<open>maxSize = 20\<close>; \<^verbatim>\<open>bucketSize\<close> is only stored in \<^verbatim>\<open>m_bucketSize\<close>.
\<close>

definition RoutingTable_init :: "NodeId \<Rightarrow> nat \<Rightarrow> RoutingTable" where
  "RoutingTable_init selfNodeId bucketSize =
     \<lparr>m_selfNodeId = selfNodeId, m_buckets = replicate 160 (KBucket_init 20), m_bucketSize = bucketSize\<rparr>"

definition RoutingTable_addPeer :: "(string \<Rightarrow> bool) \<Rightarrow> PeerInfo \<Rightarrow> RoutingTable \<Rightarrow> (failure + unit) \<times> RoutingTable" where
  "RoutingTable_addPeer make_address peer rt =
     (let bucketIndex = logDistance (m_selfNodeId rt) (nodeId peer) in
      if bucketIndex < length (m_buckets rt) then
        (case KBucket_add make_address peer (m_buckets rt ! bucketIndex) of
           (r, b') \<Rightarrow> (r, rt\<lparr>m_buckets := (m_buckets rt)[bucketIndex := b']\<rparr>))
      else (Inl Undefined, rt))"

text \<open>
  Every bucket reads the clock in its own \<^verbatim>\<open>removeStalePeers\<close> call: \<open>clock i\<close> is the
  reading taken for bucket \<open>i\<close>.
\<close>

definition refreshBuckets :: "(nat \<Rightarrow> time_point) \<Rightarrow> seconds \<Rightarrow> RoutingTable \<Rightarrow> RoutingTable" where
  "refreshBuckets clock staleThreshold rt =
     rt\<lparr>m_buckets := map (\<lambda>i. removeStalePeers (clock i) staleThreshold (m_buckets rt ! i))
                         [0..<length (m_buckets rt)]\<rparr>"

text \<open>
  An index past the end of \<^verbatim>\<open>m_buckets\<close> is undefined behaviour in the source; the model
  reports it as \<^const>\<open>Undefined\<close> in \<^verbatim>\<open>addPeer\<close> and as no result in \<^verbatim>\<open>findPeer\<close>. With
  160 buckets and a well-formed own identifier it cannot occur: the log-distance is
  below 160.
\<close>

definition findPeer :: "NodeId \<Rightarrow> RoutingTable \<Rightarrow> PeerInfo option" where
  "findPeer nid rt =
     (let bucketIndex = logDistance (m_selfNodeId rt) nid in
      if bucketIndex < length (m_buckets rt) then KBucket_find nid (m_buckets rt ! bucketIndex)
      else None)"

text \<open>The gathering loop of \<^verbatim>\<open>findClosestPeers\<close>, from the current \<open>offset\<close> on.\<close>

function gather :: "KBucket list \<Rightarrow> nat \<Rightarrow> nat \<Rightarrow> nat \<Rightarrow> PeerInfo list \<Rightarrow> PeerInfo list" where
  "gather buckets startBucket n offset closestPeers =
     (if length closestPeers < n \<and> offset < length buckets then
        let withRight =
              (if startBucket + offset < length buckets
               then closestPeers @ getAllPeers (buckets ! (startBucket + offset))
               else closestPeers);
            withLeft =
              (if offset > 0 \<and> startBucket \<ge> offset
               then withRight @ getAllPeers (buckets ! (startBucket - offset))
               else withRight)
        in gather buckets startBucket n (Suc offset) withLeft
      else closestPeers)"
  by pat_completeness auto
termination
  by (relation "measure (\<lambda>(buckets, startBucket, n, offset, closestPeers). length buckets - offset)") auto

declare gather.simps [simp del]

text \<open>
  \<^verbatim>\<open>std::ranges::partial_sort\<close> with the comparator \<open>key a < key b\<close>: afterwards the
  first \<open>middle\<close> elements are the \<open>middle\<close> smallest ones in non-descending order. The
  standard leaves the order of equivalent elements and of the elements from \<open>middle\<close> on
  unspecified; the model takes the order of a stable sort.
\<close>

definition partial_sort :: "nat \<Rightarrow> ('a \<Rightarrow> 'b::linorder) \<Rightarrow> 'a list \<Rightarrow> 'a list" where
  "partial_sort middle key xs = (let s = sort_key key xs in take middle s @ drop middle s)"

text \<open>
  The comparator of \<^verbatim>\<open>findClosestPeers\<close> compares two \<^verbatim>\<open>NodeId\<close>s with the defaulted
  \<^verbatim>\<open>operator<=>\<close>, the lexicographic order of the byte arrays; this is the order of
  \<^typ>\<open>uint8_t list\<close>. \<^verbatim>\<open>resize\<close> to a smaller size keeps the front.
\<close>

definition findClosestPeers :: "NodeId \<Rightarrow> nat \<Rightarrow> RoutingTable \<Rightarrow> PeerInfo list" where
  "findClosestPeers tgt n rt =
     (let startBucket = logDistance (m_selfNodeId rt) tgt;
          closestPeers = gather (m_buckets rt) startBucket n 0 [];
          sorted = partial_sort (min n (length closestPeers))
                     (\<lambda>a. distanceTo (nodeId a) tgt) closestPeers
      in take (min n (length closestPeers)) sorted)"

definition getPeerCount :: "RoutingTable \<Rightarrow> nat" where
  "getPeerCount rt = foldl (\<lambda>sum bucket. sum + KBucket_size bucket) 0 (m_buckets rt)"

section \<open>DHT (src/kademlia/dht.hpp)\<close>

record Config =
  refreshInterval :: seconds
  staleThreshold :: seconds
  maxPeers :: nat
  config_k :: "16 word"

record DHT =
  m_routingTable :: RoutingTable
  m_config :: Config

definition DHT_init :: "NodeId \<Rightarrow> Config \<Rightarrow> DHT" where
  "DHT_init selfNodeId config =
     \<lparr>m_routingTable = RoutingTable_init selfNodeId (unat (config_k config)), m_config = config\<rparr>"

text \<open>
  \<^verbatim>\<open>DHT::addPeer\<close>; \<open>now\<close> is the clock reading it stamps. The function is
  \<^verbatim>\<open>noexcept\<close>: an exception that reaches it ends the process, which the model shows as
  the failure \<^const>\<open>Thrown\<close>.
\<close>

definition DHT_addPeer :: "(string \<Rightarrow> bool) \<Rightarrow> time_point \<Rightarrow> PeerInfo \<Rightarrow> DHT \<Rightarrow> (failure + unit) \<times> DHT" where
  "DHT_addPeer make_address now peer dht =
     (if getPeerCount (m_routingTable dht) \<ge> maxPeers (m_config dht)
      then (Inl (Unexpected PeerLimitExceeded), dht)
      else
        let newPeer = peer\<lparr>lastSeen := now, isExpired := False\<rparr> in
        (case RoutingTable_addPeer make_address newPeer (m_routingTable dht) of
           (r, rt') \<Rightarrow> (r, dht\<lparr>m_routingTable := rt'\<rparr>)))"

definition getPeer :: "NodeId \<Rightarrow> DHT \<Rightarrow> PeerInfo option" where
  "getPeer nid dht = findPeer nid (m_routingTable dht)"

definition DHT_findClosestPeers :: "NodeId \<Rightarrow> nat \<Rightarrow> DHT \<Rightarrow> PeerInfo list" where
  "DHT_findClosestPeers tgt n dht =
     findClosestPeers tgt (if n \<noteq> 0 then n else unat (config_k (m_config dht))) (m_routingTable dht)"

definition DHT_getPeerCount :: "DHT \<Rightarrow> nat" where
  "DHT_getPeerCount dht = getPeerCount (m_routingTable dht)"

definition refresh :: "(nat \<Rightarrow> time_point) \<Rightarrow> DHT \<Rightarrow> DHT" where
  "refresh clock dht =
     dht\<lparr>m_routingTable := refreshBuckets clock (staleThreshold (m_config dht)) (m_routingTable dht)\<rparr>"

text \<open>
  Modelled from the spec: \<^verbatim>\<open>DHT::getSelfNodeId\<close>, which \<^verbatim>\<open>rpcMessage.hpp\<close> calls and
  \<^verbatim>\<open>dht.hpp\<close> does not declare. It is the local node's own identifier (\<open>self\<close>), the
  one the routing table was built with.
\<close>

definition getSelfNodeId :: "DHT \<Rightarrow> NodeId" where
  "getSelfNodeId dht = m_selfNodeId (m_routingTable dht)"

section \<open>KademliaRPC (src/kademlia/rpcMessage.hpp)\<close>

text \<open>
  \<^verbatim>\<open>RPCMessage::Type\<close> is an \<^verbatim>\<open>enum class\<close> over \<^verbatim>\<open>int\<close>; \<open>Unnamed n\<close> stands for a value
  other than the four enumerators, which a \<^verbatim>\<open>static_cast\<close> can produce and the
  \<^verbatim>\<open>switch\<close> of \<^verbatim>\<open>processMessage\<close> passes over.
\<close>

datatype Type = PING | STORE | FIND_NODE | FIND_VALUE | Unnamed int

record RPCMessage =
  type :: Type
  sender :: NodeId
  target :: NodeId
  msg_value :: string
  closestNodes :: "PeerInfo list"

definition Type_to_int :: "Type \<Rightarrow> int" where
  "Type_to_int t = (case t of PING \<Rightarrow> 0 | STORE \<Rightarrow> 1 | FIND_NODE \<Rightarrow> 2 | FIND_VALUE \<Rightarrow> 3 | Unnamed n \<Rightarrow> n)"

text \<open>
  The kinds of \<^verbatim>\<open>boost::json::value\<close> that \<^verbatim>\<open>sendMessage\<close> builds: integers, strings,
  arrays, and objects, whose members keep the order in which they were inserted.
\<close>

datatype json =
  JNumber int | JString string | JArray "json list" | JObject "(string \<times> json) list"

text \<open>
  An endpoint is an address and a port. A datagram is the text handed to the socket and
  the endpoint it is sent to.
\<close>

type_synonym endpoint = "string \<times> 16 word"
type_synonym datagram = "string \<times> endpoint"

text \<open>
  \<^verbatim>\<open>m_socket\<close> is modelled by the number of receive operations that were started on it
  and have not completed. Their completion handlers wait on the endpoint's
  \<^verbatim>\<open>m_ioCtx\<close>, which nothing in the repository runs.
\<close>

record KademliaRPC =
  m_localStore :: "NodeId \<rightharpoonup> string"
  m_dht :: DHT
  m_socket :: nat

text \<open>The JSON object \<^verbatim>\<open>jsonMsg\<close> that \<^verbatim>\<open>sendMessage\<close> builds, and the object of one closest
  node in it.\<close>

definition peerObj :: "PeerInfo \<Rightarrow> json" where
  "peerObj peer =
     JObject [(''ip'', JString (ipAddress peer)), (''port'', JNumber (uint (port peer))),
              (''nodeId'', JString (NodeId_toString (nodeId peer)))]"

definition jsonMsg :: "RPCMessage \<Rightarrow> json" where
  "jsonMsg msg =
     JObject
       ([(''type'', JNumber (Type_to_int (type msg))),
         (''sender'', JString (NodeId_toString (sender msg))),
         (''target'', JString (NodeId_toString (target msg)))]
        @ (if msg_value msg \<noteq> [] then [(''value'', JString (msg_value msg))] else [])
        @ (if closestNodes msg \<noteq> []
           then [(''closestNodes'', JArray (map peerObj (closestNodes msg)))] else []))"

text \<open>
  \<^verbatim>\<open>sendMessage\<close> writes the object as text with \<^verbatim>\<open>boost::json::serialize\<close> and hands the
  text to the socket. The library function is the parameter \<open>serialize\<close>.
\<close>

definition sendMessage :: "(json \<Rightarrow> string) \<Rightarrow> RPCMessage \<Rightarrow> endpoint \<Rightarrow> datagram" where
  "sendMessage serialize msg ep = (let serializedMsg = serialize (jsonMsg msg) in (serializedMsg, ep))"

definition respondToPing :: "(json \<Rightarrow> string) \<Rightarrow> RPCMessage \<Rightarrow> endpoint \<Rightarrow> datagram" where
  "respondToPing serialize msg ep =
     (let response = \<lparr>type = PING, sender = NodeId_zero, target = sender msg, msg_value = [],
                       closestNodes = []\<rparr>
      in sendMessage serialize response ep)"

definition storeValue :: "RPCMessage \<Rightarrow> KademliaRPC \<Rightarrow> KademliaRPC" where
  "storeValue msg st = st\<lparr>m_localStore := (m_localStore st)(target msg \<mapsto> msg_value msg)\<rparr>"

definition respondToFindNode ::
  "(json \<Rightarrow> string) \<Rightarrow> RPCMessage \<Rightarrow> endpoint \<Rightarrow> KademliaRPC \<Rightarrow> datagram" where
  "respondToFindNode serialize msg ep st =
     (let nodes = DHT_findClosestPeers (target msg) 0 (m_dht st);
          response = \<lparr>type = FIND_NODE, sender = getSelfNodeId (m_dht st), target = target msg,
                       msg_value = [], closestNodes = nodes\<rparr>
      in sendMessage serialize response ep)"

definition respondToFindValue ::
  "(json \<Rightarrow> string) \<Rightarrow> RPCMessage \<Rightarrow> endpoint \<Rightarrow> KademliaRPC \<Rightarrow> datagram" where
  "respondToFindValue serialize msg ep st =
     (let it = m_localStore st (target msg);
          response = \<lparr>type = FIND_VALUE, sender = getSelfNodeId (m_dht st), target = target msg,
                       msg_value = (case it of Some v \<Rightarrow> v | None \<Rightarrow> []),
                       closestNodes = (case it of None \<Rightarrow> DHT_findClosestPeers (target msg) 0 (m_dht st)
                                       | Some v \<Rightarrow> [])\<rparr>
      in sendMessage serialize response ep)"

text \<open>\<^verbatim>\<open>processMessage\<close>: the new endpoint state and the datagrams handed to the socket.\<close>

definition processMessage ::
  "(json \<Rightarrow> string) \<Rightarrow> RPCMessage \<Rightarrow> endpoint \<Rightarrow> KademliaRPC \<Rightarrow> KademliaRPC \<times> datagram list" where
  "processMessage serialize msg ep st =
     (case type msg of
        PING \<Rightarrow> (st, [respondToPing serialize msg ep])
      | STORE \<Rightarrow> (storeValue msg st, [])
      | FIND_NODE \<Rightarrow> (st, [respondToFindNode serialize msg ep st])
      | FIND_VALUE \<Rightarrow> (st, [respondToFindValue serialize msg ep st])
      | Unnamed n \<Rightarrow> (st, []))"

text \<open>
  \<^verbatim>\<open>startReceiving\<close> starts one asynchronous receive into its local \<^verbatim>\<open>recvBuffer\<close> and
  \<^verbatim>\<open>senderEndpoint\<close> and returns, which ends the lifetime of both locals. The
  constructor calls it once.
\<close>

definition startReceiving :: "KademliaRPC \<Rightarrow> KademliaRPC" where
  "startReceiving st = st\<lparr>m_socket := Suc (m_socket st)\<rparr>"

definition KademliaRPC_init :: "DHT \<Rightarrow> KademliaRPC" where
  "KademliaRPC_init dht = startReceiving \<lparr>m_localStore = Map.empty, m_dht = dht, m_socket = 0\<rparr>"

text \<open>
  The completion handler that \<^verbatim>\<open>startReceiving\<close> registers, for the outcome \<open>error\<close> of the
  receive. It captured \<^verbatim>\<open>recvBuffer\<close> and \<^verbatim>\<open>senderEndpoint\<close> by reference. Without an
  error its first statement reads \<^verbatim>\<open>recvBuffer\<close>, whose lifetime ended when
  \<^verbatim>\<open>startReceiving\<close> returned: the behaviour of the whole branch, parsing and the call of
  \<^verbatim>\<open>processMessage\<close> included, is undefined. With an error it only calls
  \<^verbatim>\<open>startReceiving\<close> again.
\<close>

definition receiveHandler :: "bool \<Rightarrow> KademliaRPC \<Rightarrow> failure + KademliaRPC" where
  "receiveHandler error st =
     (if \<not> error then Inl Undefined
      else Inr (startReceiving (st\<lparr>m_socket := m_socket st - 1\<rparr>)))"

section \<open>Reachable routing tables and their invariant\<close>

text \<open>
  The routing tables the program can hold: the constructor's, on a well-formed own
  identifier, and those that \<^verbatim>\<open>addPeer\<close> (directly or through \<^verbatim>\<open>DHT::addPeer\<close>) and
  \<^verbatim>\<open>refreshBuckets\<close> (called by \<^verbatim>\<open>DHT::refresh\<close> and the background thread) make from
  them. The calls are serialized by \<^verbatim>\<open>m_mutex\<close>.
\<close>

inductive reachable :: "RoutingTable \<Rightarrow> bool" where
  init: "length selfNodeId = NODE_ID_LEN \<Longrightarrow> reachable (RoutingTable_init selfNodeId bucketSize)"
| addPeer: "reachable rt \<Longrightarrow> length (nodeId peer) = NODE_ID_LEN \<Longrightarrow>
            reachable (snd (RoutingTable_addPeer make_address peer rt))"
| refresh: "reachable rt \<Longrightarrow> reachable (refreshBuckets clock threshold rt)"

definition bucket_inv :: "NodeId \<Rightarrow> nat \<Rightarrow> KBucket \<Rightarrow> bool" where
  "bucket_inv selfNodeId i b \<longleftrightarrow>
     m_maxSize b = 20 \<and> length (m_peers b) \<le> 20 \<and> distinct (map nodeId (m_peers b)) \<and>
     (\<forall>p\<in>set (m_peers b).
        isValid p \<and> length (nodeId p) = NODE_ID_LEN \<and> logDistance selfNodeId (nodeId p) = i)"

definition table_inv :: "RoutingTable \<Rightarrow> bool" where
  "table_inv rt \<longleftrightarrow>
     length (m_selfNodeId rt) = NODE_ID_LEN \<and> length (m_buckets rt) = 160 \<and>
     (\<forall>i<160. bucket_inv (m_selfNodeId rt) i (m_buckets rt ! i))"

section \<open>Concrete inputs of the examples\<close>

definition self0 :: NodeId where
  "self0 = [1, 0, 0, 0, 0, 0, 0, 0, 0, 0, 0, 0, 0, 0, 0, 0, 0, 0, 0, 0]"

text \<open>Peer number \<open>j\<close>: its identifier differs from \<open>self0\<close> in the first byte, so all of
  them fall into bucket 153.\<close>

definition peer0 :: "uint8_t \<Rightarrow> PeerInfo" where
  "peer0 j = \<lparr>ipAddress = ''10.0.0.1'', port = 8080, lastSeen = 0,
               nodeId = [2, 0, 0, 0, 0, 0, 0, 0, 0, 0, 0, 0, 0, 0, 0, 0, 0, 0, 0, j],
               isExpired = False\<rparr>"

text \<open>A peer that carries the node's own identifier.\<close>

definition self_peer :: PeerInfo where
  "self_peer = \<lparr>ipAddress = ''10.0.0.1'', port = 8080, lastSeen = 0, nodeId = self0, isExpired = False\<rparr>"

text \<open>The address parser of the examples: the one address they use is an IP literal.\<close>

definition make_address0 :: "string \<Rightarrow> bool" where
  "make_address0 a \<longleftrightarrow> a = ''10.0.0.1''"

definition table0 :: RoutingTable where
  "table0 = RoutingTable_init self0 20"

text \<open>The table after peers 1 to 20 were added: bucket 153 is full.\<close>

definition full_table :: RoutingTable where
  "full_table =
     fold (\<lambda>j rt. snd (RoutingTable_addPeer make_address0 (peer0 (of_nat j)) rt)) [1..<21] table0"

text \<open>The configuration of the test \<^verbatim>\<open>StalePeerRemoval\<close>, and the same with room for one
  peer only.\<close>

definition config0 :: Config where
  "config0 = \<lparr>refreshInterval = 1, staleThreshold = 1, maxPeers = 100, config_k = 20\<rparr>"

definition config1 :: Config where
  "config1 = config0\<lparr>maxPeers := 1\<rparr>"

definition rpc0 :: KademliaRPC where
  "rpc0 = KademliaRPC_init (DHT_init self0 config0)"

text \<open>
  The serializer of the examples: a compact JSON writer (no white space, members in
  insertion order, strings quoted with the quotation mark, the backslash and control
  characters escaped). It stands for \<^verbatim>\<open>boost::json::serialize\<close> in the closed examples;
  the theorems about the code hold for every serializer.
\<close>

function decimal :: "nat \<Rightarrow> string" where
  "decimal n = (if n < 10 then [hex_digit n] else decimal (n div 10) @ [hex_digit (n mod 10)])"
  by pat_completeness auto
termination
  by (relation "measure (\<lambda>n. n)") auto

declare decimal.simps [simp del]

definition int_decimal :: "int \<Rightarrow> string" where
  "int_decimal i = (if i < 0 then CHR ''-'' # decimal (nat (- i)) else decimal (nat i))"

definition escape_char :: "char \<Rightarrow> string" where
  "escape_char c =
     (let n = (of_char c :: nat) in
      if n = 0x22 then [CHR 0x5C, CHR 0x22]
      else if n = 0x5C then [CHR 0x5C, CHR 0x5C]
      else if n = 8 then [CHR 0x5C, CHR ''b'']
      else if n = 9 then [CHR 0x5C, CHR ''t'']
      else if n = 10 then [CHR 0x5C, CHR ''n'']
      else if n = 12 then [CHR 0x5C, CHR ''f'']
      else if n = 13 then [CHR 0x5C, CHR ''r'']
      else if n < 32 then [CHR 0x5C, CHR ''u'', CHR ''0'', CHR ''0'', hex_digit (n div 16), hex_digit (n mod 16)]
      else [c])"

definition quoted :: "string \<Rightarrow> string" where
  "quoted s = CHR 0x22 # concat (map escape_char s) @ [CHR 0x22]"

fun commas :: "string list \<Rightarrow> string" where
  "commas [] = []"
| "commas [x] = x"
| "commas (x # y # ys) = x @ CHR '','' # commas (y # ys)"

fun serialize0 :: "json \<Rightarrow> string" where
  "serialize0 (JNumber n) = int_decimal n"
| "serialize0 (JString s) = quoted s"
| "serialize0 (JArray xs) = CHR ''['' # commas (map serialize0 xs) @ [CHR '']'']"
| "serialize0 (JObject kv) =
     CHR ''{'' # commas (map (\<lambda>m. quoted (fst m) @ CHR '':'' # serialize0 (snd m)) kv) @ [CHR ''}'']"

text \<open>A bucket of two peers, least recently seen first, and a fresh observation of the
  first of them.\<close>

definition bucket2 :: KBucket where
  "bucket2 = \<lparr>m_peers = [(peer0 1)\<lparr>lastSeen := 1\<rparr>, (peer0 2)\<lparr>lastSeen := 2\<rparr>], m_maxSize = 20,
               m_ioCtx = []\<rparr>"

definition seen_again :: PeerInfo where
  "seen_again = (peer0 1)\<lparr>lastSeen := 3\<rparr>"

text \<open>A PING from peer 1, and the endpoint it comes from.\<close>

definition ping0 :: RPCMessage where
  "ping0 = \<lparr>type = PING, sender = nodeId (peer0 1), target = self0, msg_value = [], closestNodes = []\<rparr>"

definition endpoint0 :: endpoint where
  "endpoint0 = (''10.0.0.1'', 8080)"



text \<open>The scenario of the test \<^verbatim>\<open>StalePeerRemoval\<close>: a DHT with a stale threshold of one
  second; at tick \<open>now0\<close> a peer is added whose \<^verbatim>\<open>lastSeen\<close> lies five seconds back.\<close>

definition now0 :: time_point where
  "now0 = 1000 * ticks_per_second"

definition old_peer :: PeerInfo where
  "old_peer = (peer0 1)\<lparr>lastSeen := now0 - 5 * ticks_per_second\<rparr>"

text \<open>A clock that reads \<open>t\<close> in every bucket's \<^verbatim>\<open>removeStalePeers\<close> call of one sweep.\<close>

definition clock_at :: "time_point \<Rightarrow> nat \<Rightarrow> time_point" where
  "clock_at t i = t"

definition dht0 :: DHT where
  "dht0 = DHT_init self0 config0"

text \<open>A DHT with \<open>maxPeers = 1\<close> after peer 1 was added at tick \<open>now0\<close>.\<close>

definition dht1 :: DHT where
  "dht1 = snd (DHT_addPeer make_address0 now0 old_peer (DHT_init self0 config1))"

section \<open>Iterators and the identifier metric\<close>

lemma find_if_not_hit: "find_if_not P xs < length xs \<Longrightarrow> \<not> P (xs ! find_if_not P xs)"
  by (induction xs) (auto split: if_splits)

lemma find_if_not_before: "j < find_if_not P xs \<Longrightarrow> P (xs ! j)"
proof (induction xs arbitrary: j)
  case Nil
  then show ?case by simp
next
  case (Cons x xs)
  then show ?case by (cases j) (auto split: if_splits)
qed

lemma find_if_not_first:
  assumes "i < length xs" and "\<not> P (xs ! i)" and "\<forall>j<i. P (xs ! j)"
  shows "find_if_not P xs = i"
proof -
  have "\<not> i < find_if_not P xs"
    using find_if_not_before[of i P xs] assms(2) by blast
  moreover have "\<not> find_if_not P xs < i"
  proof
    assume h: "find_if_not P xs < i"
    then have "find_if_not P xs < length xs" using assms(1) by simp
    then have "\<not> P (xs ! find_if_not P xs)" by (rule find_if_not_hit)
    with assms(3) h show False by blast
  qed
  ultimately show ?thesis by simp
qed

lemma distanceTo_self: "distanceTo a a = replicate (length a) 0"
  by (induction a) (auto simp: distanceTo_def)

lemma distanceTo_nth:
  "i < length a \<Longrightarrow> i < length b \<Longrightarrow> distanceTo a b ! i = a ! i XOR b ! i"
  by (simp add: distanceTo_def)

lemma xor_zero_eq: "(a::uint8_t) XOR b = 0 \<Longrightarrow> a = b"
proof -
  assume h: "a XOR b = 0"
  have "a = (a XOR b) XOR b" by (simp add: xor.assoc)
  then show "a = b" using h by simp
qed

lemma countl_zero_le: "b \<noteq> 0 \<Longrightarrow> countl_zero b \<le> 7"
proof (rule ccontr)
  assume nz: "b \<noteq> 0" and "\<not> countl_zero b \<le> 7"
  then have "\<forall>i\<in>set [7, 6, 5, 4, 3, 2, 1, 0::nat]. \<not> bit b i"
    unfolding countl_zero_def by (auto split: if_splits)
  then have "\<And>i. i < 8 \<Longrightarrow> \<not> bit b i"
    by (auto simp: less_Suc_eq eval_nat_numeral)
  then have "b = 0"
    by (intro bit_eqI) (auto simp: bit_simps dest: bit_imp_le_length)
  with nz show False by simp
qed

lemma find_if_not_le: "find_if_not P xs \<le> length xs"
  by (induction xs) auto

lemma length_distanceTo: "length (distanceTo a b) = min (length a) (length b)"
  by (simp add: distanceTo_def)

lemma logDistance_less:
  assumes "length a = NODE_ID_LEN" and "length b = NODE_ID_LEN"
  shows "logDistance a b < 160"
proof -
  let ?d = "distanceTo a b"
  have len: "length ?d = 20" using assms by (simp add: length_distanceTo NODE_ID_LEN_def)
  have "(length ?d - find_if_not (\<lambda>b. b = 0) ?d - 1) * 8 \<le> 19 * 8"
    using len by simp
  moreover have "7 - countl_zero (?d ! find_if_not (\<lambda>b. b = 0) ?d) \<le> 7" by simp
  ultimately show ?thesis
    unfolding logDistance_def Let_def by (simp only: split: if_split) arith
qed

lemma find_if_le: "find_if P xs \<le> length xs"
  by (induction xs) auto

lemma find_if_end: "find_if P xs = length xs \<longleftrightarrow> (\<forall>x\<in>set xs. \<not> P x)"
  using find_if_le[of P] by (induction xs) auto

lemma find_if_hit: "find_if P xs < length xs \<Longrightarrow> P (xs ! find_if P xs)"
  by (induction xs) auto

lemma find_if_before: "j < find_if P xs \<Longrightarrow> \<not> P (xs ! j)"
proof (induction xs arbitrary: j)
  case Nil
  then show ?case by simp
next
  case (Cons x xs)
  then show ?case by (cases j) (auto split: if_splits)
qed

lemma find_if_update:
  "find_if P xs < length xs \<Longrightarrow> P y \<Longrightarrow> find_if P (xs[find_if P xs := y]) = find_if P xs"
  by (induction xs) auto

lemma map_update_same:
  "i < length xs \<Longrightarrow> f (xs ! i) = f y \<Longrightarrow> map f (xs[i := y]) = map f xs"
  by (simp add: map_update list_update_same_conv)

text \<open>What add does in its first three branches\<close>



lemma find_if_not_all: "find_if_not P xs = length xs \<longleftrightarrow> (\<forall>x\<in>set xs. P x)"
  using find_if_not_le[of P] by (induction xs) auto

lemma logDistance_self: "logDistance a a = 0"
  by (simp add: logDistance_def distanceTo_self find_if_not_all Let_def)

lemma distanceTo_eq_zero:
  assumes "length a = length b" and "\<forall>x\<in>set (distanceTo a b). x = 0"
  shows "a = b"
proof (rule nth_equalityI)
  show "length a = length b" by fact
  fix i assume i: "i < length a"
  then have "distanceTo a b ! i \<in> set (distanceTo a b)"
    using assms(1) by (simp add: length_distanceTo)
  then have "distanceTo a b ! i = 0" using assms(2) by blast
  then have "a ! i XOR b ! i = 0" using i assms(1) by (simp add: distanceTo_nth)
  then show "a ! i = b ! i" by (rule xor_zero_eq)
qed

text \<open>The lexicographic order of two byte arrays of the same length is the order of the
  unsigned integers they encode.\<close>

lemma foldl_value_acc:
  "foldl (\<lambda>acc byte. acc * 256 + unat (byte :: uint8_t)) acc a
     = acc * 256 ^ length a + foldl (\<lambda>acc byte. acc * 256 + unat byte) 0 a"
proof -
  define f where "f = (\<lambda>acc (byte :: uint8_t). acc * 256 + unat byte)"
  have "foldl f acc a = acc * 256 ^ length a + foldl f 0 a"
  proof (induction a arbitrary: acc)
    case Nil
    then show ?case by simp
  next
    case (Cons x xs)
    have "foldl f acc (x # xs) = foldl f (acc * 256 + unat x) xs" by (simp add: f_def)
    also have "\<dots> = (acc * 256 + unat x) * 256 ^ length xs + foldl f 0 xs" by (rule Cons.IH)
    also have "\<dots> = acc * 256 ^ length (x # xs) + (unat x * 256 ^ length xs + foldl f 0 xs)"
      by (simp add: algebra_simps)
    also have "unat x * 256 ^ length xs + foldl f 0 xs = foldl f (unat x) xs"
      by (rule Cons.IH[symmetric])
    also have "foldl f (unat x) xs = foldl f 0 (x # xs)" by (simp add: f_def)
    finally show ?case .
  qed
  then show ?thesis by (simp add: f_def)
qed

lemma NodeId_value_Cons: "NodeId_value (x # xs) = unat x * 256 ^ length xs + NodeId_value xs"
  using foldl_value_acc[of "unat x" xs] by (simp add: NodeId_value_def)

lemma NodeId_value_less: "NodeId_value a < 256 ^ length a"
proof (induction a)
  case Nil
  then show ?case by (simp add: NodeId_value_def)
next
  case (Cons x xs)
  have "unat x < 2 ^ LENGTH(8)" by (rule unsigned_less)
  then have "unat x + 1 \<le> 256" by simp
  then have "(unat x + 1) * 256 ^ length xs \<le> 256 * 256 ^ length xs"
    by (rule mult_le_mono1)
  then have "unat x * 256 ^ length xs + 256 ^ length xs \<le> 256 * 256 ^ length xs"
    by (simp add: algebra_simps)
  moreover have "NodeId_value xs < 256 ^ length xs" by (rule Cons.IH)
  ultimately have "unat x * 256 ^ length xs + NodeId_value xs < 256 * 256 ^ length xs"
    by linarith
  then show ?case by (simp add: NodeId_value_Cons)
qed

lemma NodeId_less_iff_value:
  assumes "length a = length b"
  shows "a < b \<longleftrightarrow> NodeId_value a < NodeId_value b"
  using assms
proof (induction a b rule: list_induct2)
  case Nil
  then show ?case by (simp add: NodeId_value_def)
next
  case (Cons x xs y ys)
  have bx: "NodeId_value xs < 256 ^ length xs" and by': "NodeId_value ys < 256 ^ length xs"
    using NodeId_value_less[of xs] NodeId_value_less[of ys] Cons.hyps by simp_all
  show ?case
  proof (cases "x = y")
    case True
    then show ?thesis using Cons by (simp add: NodeId_value_Cons)
  next
    case False
    show ?thesis
    proof (cases "x < y")
      case True
      then have "unat x + 1 \<le> unat y" by (simp add: word_less_nat_alt)
      then have "(unat x + 1) * 256 ^ length xs \<le> unat y * 256 ^ length xs"
        by (rule mult_le_mono1)
      then have "unat x * 256 ^ length xs + 256 ^ length xs \<le> unat y * 256 ^ length xs"
        by (simp add: algebra_simps)
      then have "unat x * 256 ^ length xs + NodeId_value xs < unat y * 256 ^ length xs + NodeId_value ys"
        using bx by linarith
      then have "NodeId_value (x # xs) < NodeId_value (y # ys)"
        by (simp add: NodeId_value_Cons Cons.hyps[symmetric])
      then show ?thesis using True by simp
    next
      case nlt: False
      then have "y < x" using False by simp
      then have "unat y + 1 \<le> unat x" by (simp add: word_less_nat_alt)
      then have "(unat y + 1) * 256 ^ length xs \<le> unat x * 256 ^ length xs"
        by (rule mult_le_mono1)
      then have "unat y * 256 ^ length xs + 256 ^ length xs \<le> unat x * 256 ^ length xs"
        by (simp add: algebra_simps)
      then have "unat y * 256 ^ length xs + NodeId_value ys < unat x * 256 ^ length xs + NodeId_value xs"
        using by' by linarith
      then have "NodeId_value (y # ys) < NodeId_value (x # xs)"
        by (simp add: NodeId_value_Cons Cons.hyps[symmetric])
      then show ?thesis using nlt False by simp
    qed
  qed
qed

text \<open>For a non-zero byte, \<open>7 - countl_zero b\<close> is the position of its highest set bit.\<close>

lemma countl_zero_log_all:
  "\<forall>n\<in>set [1..<256]. 2 ^ (7 - countl_zero (of_nat n)) \<le> n \<and> n < 2 ^ (8 - countl_zero (of_nat n))"
  by code_simp

lemma countl_zero_log:
  assumes "b \<noteq> 0"
  shows "2 ^ (7 - countl_zero b) \<le> unat b \<and> unat b < 2 ^ (8 - countl_zero b)"
proof -
  have "unat b < 2 ^ LENGTH(8)" by (rule unsigned_less)
  moreover have "unat b \<noteq> 0" using assms by (simp add: unat_eq_0)
  ultimately have "unat b \<in> set [1..<256]" by simp
  then show ?thesis using countl_zero_log_all by fastforce
qed


section \<open>The branches of \<^verbatim>\<open>KBucket::add\<close>\<close>

lemma KBucket_add_invalid:
  "\<not> isValid p \<Longrightarrow> KBucket_add mk p b = (Inl (Unexpected InvalidPeer), b)"
  by (simp add: KBucket_add_def)

lemma KBucket_add_existing:
  assumes "isValid p" and "find_if (\<lambda>q. nodeId q = nodeId p) (m_peers b) < length (m_peers b)"
  shows "KBucket_add mk p b =
           (Inr (), b\<lparr>m_peers := (m_peers b)[find_if (\<lambda>q. nodeId q = nodeId p) (m_peers b) := p]\<rparr>)"
  using assms by (simp add: KBucket_add_def Let_def)

lemma KBucket_add_append:
  assumes "isValid p" and "\<forall>q\<in>set (m_peers b). nodeId q \<noteq> nodeId p"
    and "length (m_peers b) < m_maxSize b"
  shows "KBucket_add mk p b = (Inr (), b\<lparr>m_peers := m_peers b @ [p]\<rparr>)"
proof -
  have "find_if (\<lambda>q. nodeId q = nodeId p) (m_peers b) = length (m_peers b)"
    using assms(2) by (simp add: find_if_end)
  then show ?thesis using assms by (simp add: KBucket_add_def Let_def)
qed

lemma KBucket_add_full:
  assumes "isValid p" and "\<forall>q\<in>set (m_peers b). nodeId q \<noteq> nodeId p"
    and "\<not> length (m_peers b) < m_maxSize b"
  shows "m_peers (snd (KBucket_add mk p b)) = m_peers b \<and> m_maxSize (snd (KBucket_add mk p b)) = m_maxSize b"
proof -
  have "find_if (\<lambda>q. nodeId q = nodeId p) (m_peers b) = length (m_peers b)"
    using assms(2) by (simp add: find_if_end)
  then show ?thesis using assms
    by (simp add: KBucket_add_def Let_def pingPeer_def split: sum.splits)
qed


lemma KBucket_add_valid:
  assumes "isValid p"
  shows "fst (KBucket_add mk p b) \<noteq> Inl (Unexpected InvalidPeer)"
  using assms by (simp add: KBucket_add_def Let_def pingPeer_def split: sum.splits)

section \<open>The invariant holds in every reachable table\<close>

lemma bucket_inv_removeStale:
  assumes "bucket_inv s i b"
  shows "bucket_inv s i (removeStalePeers now thr b)"
proof -
  let ?keep = "\<lambda>peer. \<not> (now - lastSeen peer \<ge> thr * ticks_per_second)"
  have "length (filter ?keep (m_peers b)) \<le> length (m_peers b)" by (rule length_filter_le)
  moreover have "length (m_peers b) \<le> 20" using assms by (simp add: bucket_inv_def)
  ultimately have l: "length (filter ?keep (m_peers b)) \<le> 20" by (rule order_trans)
  have d: "distinct (map nodeId (filter ?keep (m_peers b)))"
    using assms by (simp add: bucket_inv_def distinct_map_filter)
  show ?thesis using assms l d
    by (simp add: bucket_inv_def removeStalePeers_def)
qed

lemma table_inv_init: "length s = NODE_ID_LEN \<Longrightarrow> table_inv (RoutingTable_init s n)"
  by (simp add: table_inv_def RoutingTable_init_def bucket_inv_def KBucket_init_def)


lemma bucket_inv_intro:
  assumes "m_maxSize b = 20" and "length (m_peers b) \<le> 20" and "distinct (map nodeId (m_peers b))"
    and "\<And>q. q \<in> set (m_peers b) \<Longrightarrow>
           isValid q \<and> length (nodeId q) = NODE_ID_LEN \<and> logDistance s (nodeId q) = i"
  shows "bucket_inv s i b"
  using assms unfolding bucket_inv_def by blast

lemma bucket_inv_add:
  assumes inv: "bucket_inv s i b"
    and p: "length (nodeId p) = NODE_ID_LEN" "logDistance s (nodeId p) = i"
  shows "bucket_inv s i (snd (KBucket_add mk p b))"
proof (cases "isValid p")
  case False
  then show ?thesis using inv by (simp add: KBucket_add_invalid)
next
  case valid: True
  let ?it = "find_if (\<lambda>q. nodeId q = nodeId p) (m_peers b)"
  from inv have mx: "m_maxSize b = 20" and le: "length (m_peers b) \<le> 20"
    and di: "distinct (map nodeId (m_peers b))"
    and al: "\<And>q. q \<in> set (m_peers b) \<Longrightarrow>
           isValid q \<and> length (nodeId q) = NODE_ID_LEN \<and> logDistance s (nodeId q) = i"
    unfolding bucket_inv_def by blast+
  show ?thesis
  proof (cases "?it < length (m_peers b)")
    case True
    have same: "nodeId (m_peers b ! ?it) = nodeId p" using find_if_hit[OF True] by simp
    have m: "map nodeId ((m_peers b)[?it := p]) = map nodeId (m_peers b)"
      using True same by (rule map_update_same)
    have sub: "set ((m_peers b)[?it := p]) \<subseteq> insert p (set (m_peers b))"
      by (rule set_update_subset_insert)
    have "bucket_inv s i (b\<lparr>m_peers := (m_peers b)[?it := p]\<rparr>)"
    proof (rule bucket_inv_intro)
      show "m_maxSize (b\<lparr>m_peers := (m_peers b)[?it := p]\<rparr>) = 20" using mx by simp
      show "length (m_peers (b\<lparr>m_peers := (m_peers b)[?it := p]\<rparr>)) \<le> 20" using le by simp
      show "distinct (map nodeId (m_peers (b\<lparr>m_peers := (m_peers b)[?it := p]\<rparr>)))"
        using di m by simp
      fix q assume "q \<in> set (m_peers (b\<lparr>m_peers := (m_peers b)[?it := p]\<rparr>))"
      then have "q = p \<or> q \<in> set (m_peers b)" using sub by auto
      then show "isValid q \<and> length (nodeId q) = NODE_ID_LEN \<and> logDistance s (nodeId q) = i"
        using al p valid by blast
    qed
    then show ?thesis using valid True by (simp add: KBucket_add_existing)
  next
    case False
    then have "?it = length (m_peers b)"
      using find_if_le[of "\<lambda>q. nodeId q = nodeId p" "m_peers b"] by simp
    then have none: "\<forall>q\<in>set (m_peers b). nodeId q \<noteq> nodeId p" by (simp add: find_if_end)
    show ?thesis
    proof (cases "length (m_peers b) < m_maxSize b")
      case True
      have "bucket_inv s i (b\<lparr>m_peers := m_peers b @ [p]\<rparr>)"
      proof (rule bucket_inv_intro)
        show "m_maxSize (b\<lparr>m_peers := m_peers b @ [p]\<rparr>) = 20" using mx by simp
        show "length (m_peers (b\<lparr>m_peers := m_peers b @ [p]\<rparr>)) \<le> 20" using True mx by simp
        show "distinct (map nodeId (m_peers (b\<lparr>m_peers := m_peers b @ [p]\<rparr>)))"
          using di none by auto
        fix q assume "q \<in> set (m_peers (b\<lparr>m_peers := m_peers b @ [p]\<rparr>))"
        then have "q = p \<or> q \<in> set (m_peers b)" by auto
        then show "isValid q \<and> length (nodeId q) = NODE_ID_LEN \<and> logDistance s (nodeId q) = i"
          using al p valid by blast
      qed
      then show ?thesis using valid none True by (simp add: KBucket_add_append)
    next
      case False
      then show ?thesis using KBucket_add_full[OF valid none False, of mk] inv
        by (simp add: bucket_inv_def)
    qed
  qed
qed


lemma RoutingTable_addPeer_in_range:
  assumes "logDistance (m_selfNodeId rt) (nodeId p) < length (m_buckets rt)"
  shows "RoutingTable_addPeer mk p rt =
           (fst (KBucket_add mk p (m_buckets rt ! logDistance (m_selfNodeId rt) (nodeId p))),
            rt\<lparr>m_buckets := (m_buckets rt)[logDistance (m_selfNodeId rt) (nodeId p) :=
                   snd (KBucket_add mk p (m_buckets rt ! logDistance (m_selfNodeId rt) (nodeId p)))]\<rparr>)"
  using assms by (simp add: RoutingTable_addPeer_def Let_def split: prod.splits)

lemma table_inv_addPeer:
  assumes inv: "table_inv rt" and p: "length (nodeId p) = NODE_ID_LEN"
  shows "table_inv (snd (RoutingTable_addPeer mk p rt))"
proof -
  let ?i = "logDistance (m_selfNodeId rt) (nodeId p)"
  let ?b = "snd (KBucket_add mk p (m_buckets rt ! ?i))"
  from inv have s: "length (m_selfNodeId rt) = NODE_ID_LEN" and len: "length (m_buckets rt) = 160"
    and bs: "\<And>j. j < 160 \<Longrightarrow> bucket_inv (m_selfNodeId rt) j (m_buckets rt ! j)"
    unfolding table_inv_def by blast+
  have i: "?i < 160" using s p by (rule logDistance_less)
  have bi: "bucket_inv (m_selfNodeId rt) ?i ?b"
    using bs[OF i] p by (intro bucket_inv_add) simp_all
  have eq: "snd (RoutingTable_addPeer mk p rt) = rt\<lparr>m_buckets := (m_buckets rt)[?i := ?b]\<rparr>"
    using i len by (simp add: RoutingTable_addPeer_in_range)
  have "\<And>j. j < 160 \<Longrightarrow> bucket_inv (m_selfNodeId rt) j ((m_buckets rt)[?i := ?b] ! j)"
  proof -
    fix j :: nat assume j: "j < 160"
    show "bucket_inv (m_selfNodeId rt) j ((m_buckets rt)[?i := ?b] ! j)"
    proof (cases "j = ?i")
      case True
      then show ?thesis using bi i len by simp
    next
      case False
      then show ?thesis using bs[OF j] by simp
    qed
  qed
  then show ?thesis unfolding eq table_inv_def using s len by simp
qed

lemma table_inv_refresh:
  assumes "table_inv rt"
  shows "table_inv (refreshBuckets clock thr rt)"
  using assms by (simp add: table_inv_def refreshBuckets_def bucket_inv_removeStale)

lemma reachable_inv: "reachable rt \<Longrightarrow> table_inv rt"
proof (induction rule: reachable.induct)
  case (init selfNodeId bucketSize)
  then show ?case by (rule table_inv_init)
next
  case (addPeer rt peer make_address)
  then show ?case by (intro table_inv_addPeer)
next
  case (refresh rt clock threshold)
  then show ?case by (intro table_inv_refresh)
qed


section \<open>The gathering loop of \<^verbatim>\<open>findClosestPeers\<close>\<close>

lemma gather_stop:
  assumes "\<not> (length closestPeers < n \<and> offset < length buckets)"
  shows "gather buckets startBucket n offset closestPeers = closestPeers"
  by (subst gather.simps) (rule if_not_P[OF assms])

lemma gather_step:
  assumes "length closestPeers < n \<and> offset < length buckets"
  shows "gather buckets startBucket n offset closestPeers =
           gather buckets startBucket n (Suc offset)
             ((if startBucket + offset < length buckets
               then closestPeers @ getAllPeers (buckets ! (startBucket + offset))
               else closestPeers)
              @ (if offset > 0 \<and> startBucket \<ge> offset
                 then getAllPeers (buckets ! (startBucket - offset)) else []))"
proof -
  have "gather buckets startBucket n offset closestPeers =
          (let withRight =
              (if startBucket + offset < length buckets
               then closestPeers @ getAllPeers (buckets ! (startBucket + offset))
               else closestPeers);
            withLeft =
              (if offset > 0 \<and> startBucket \<ge> offset
               then withRight @ getAllPeers (buckets ! (startBucket - offset))
               else withRight)
        in gather buckets startBucket n (Suc offset) withLeft)"
    by (subst gather.simps) (rule if_P[OF assms])
  also have "\<dots> = gather buckets startBucket n (Suc offset)
             ((if startBucket + offset < length buckets
               then closestPeers @ getAllPeers (buckets ! (startBucket + offset))
               else closestPeers)
              @ (if offset > 0 \<and> startBucket \<ge> offset
                 then getAllPeers (buckets ! (startBucket - offset)) else []))"
    by (simp add: Let_def)
  finally show ?thesis .
qed

lemma gather_indices:
  assumes "distinct is"
    and "\<forall>i\<in>set is. i < length bs \<and> (if i \<le> start then start - i else i - start) < offset"
    and "closest = concat (map (\<lambda>i. m_peers (bs ! i)) is)"
    and "start < length bs"
  shows "\<exists>js. distinct js \<and> (\<forall>i\<in>set js. i < length bs)
              \<and> gather bs start n offset closest = concat (map (\<lambda>i. m_peers (bs ! i)) js)"
  using assms
proof (induction bs start n offset closest arbitrary: "is" rule: gather.induct)
  case (1 buckets startBucket n offset closestPeers)
  show ?case
  proof (cases "length closestPeers < n \<and> offset < length buckets")
    case False
    then have "gather buckets startBucket n offset closestPeers = closestPeers"
      by (rule gather_stop)
    then show ?thesis using "1.prems" by auto
  next
    case True
    define is1 where "is1 = (if startBucket + offset < length buckets then is @ [startBucket + offset] else is)"
    define is2 where "is2 = (if offset > 0 \<and> startBucket \<ge> offset then is1 @ [startBucket - offset] else is1)"
    define withRight where "withRight = (if startBucket + offset < length buckets
               then closestPeers @ getAllPeers (buckets ! (startBucket + offset))
               else closestPeers)"
    define withLeft where "withLeft = (if offset > 0 \<and> startBucket \<ge> offset
               then withRight @ getAllPeers (buckets ! (startBucket - offset))
               else withRight)"
    have step: "gather buckets startBucket n offset closestPeers
                  = gather buckets startBucket n (Suc offset) withLeft"
      using gather_step[OF True] by (simp add: withLeft_def withRight_def)
    have r: "withRight = concat (map (\<lambda>i. m_peers (buckets ! i)) is1)"
      using "1.prems"(3) by (simp add: withRight_def is1_def getAllPeers_def)
    have l: "withLeft = concat (map (\<lambda>i. m_peers (buckets ! i)) is2)"
      using r by (simp add: withLeft_def is2_def getAllPeers_def)
    have d1: "distinct is1" using "1.prems"(1,2) by (auto simp: is1_def split: if_splits)
    have b1: "\<forall>i\<in>set is1. i < length buckets \<and> (if i \<le> startBucket then startBucket - i else i - startBucket) < Suc offset"
      using "1.prems"(2) by (auto simp: is1_def split: if_splits)
    have n1: "0 < offset \<Longrightarrow> offset \<le> startBucket \<Longrightarrow> startBucket - offset \<notin> set is1"
      using "1.prems"(2) by (auto simp: is1_def split: if_splits)
    have d2: "distinct is2" using d1 n1 by (auto simp: is2_def)
    have b2: "\<forall>i\<in>set is2. i < length buckets \<and> (if i \<le> startBucket then startBucket - i else i - startBucket) < Suc offset"
      using b1 True "1.prems"(4) by (auto simp: is2_def split: if_splits)
    have "\<exists>js. distinct js \<and> (\<forall>i\<in>set js. i < length buckets)
              \<and> gather buckets startBucket n (Suc offset) withLeft = concat (map (\<lambda>i. m_peers (buckets ! i)) js)"
      using True withRight_def withLeft_def d2 b2 l "1.prems"(4) by (rule "1.IH")
    then show ?thesis using step by simp
  qed
qed


lemma logDistance_less_self:
  assumes "length a = NODE_ID_LEN"
  shows "logDistance a b < 160"
proof -
  let ?d = "distanceTo a b"
  have len: "length ?d \<le> 20" using assms by (simp add: length_distanceTo NODE_ID_LEN_def)
  have "(length ?d - find_if_not (\<lambda>b. b = 0) ?d - 1) * 8 \<le> 19 * 8"
    using len by simp
  moreover have "7 - countl_zero (?d ! find_if_not (\<lambda>b. b = 0) ?d) \<le> 7" by simp
  ultimately show ?thesis
    unfolding logDistance_def Let_def by (simp only: split: if_split) arith
qed


lemma distinct_concat_buckets:
  assumes inv: "\<And>i. i < length bs \<Longrightarrow> bucket_inv s i (bs ! i)"
    and "distinct js" and "\<forall>i\<in>set js. i < length bs"
  shows "distinct (map nodeId (concat (map (\<lambda>i. m_peers (bs ! i)) js)))"
  using assms(2,3)
proof (induction js)
  case Nil
  then show ?case by simp
next
  case (Cons j js)
  have j: "j < length bs" and nj: "j \<notin> set js" using Cons.prems by auto
  have dj: "distinct (map nodeId (m_peers (bs ! j)))"
    using inv[OF j] by (simp add: bucket_inv_def)
  have rest: "distinct (map nodeId (concat (map (\<lambda>i. m_peers (bs ! i)) js)))"
    using Cons by simp
  have disj: "nodeId ` set (m_peers (bs ! j)) \<inter> nodeId ` set (concat (map (\<lambda>i. m_peers (bs ! i)) js)) = {}"
  proof (rule ccontr)
    assume "\<not> ?thesis"
    then obtain p q where p: "p \<in> set (m_peers (bs ! j))"
      and q: "q \<in> set (concat (map (\<lambda>i. m_peers (bs ! i)) js))" and eq: "nodeId p = nodeId q"
      by auto
    from q obtain i where i: "i \<in> set js" and qi: "q \<in> set (m_peers (bs ! i))" by auto
    have "i < length bs" using i Cons.prems by simp
    then have "logDistance s (nodeId q) = i" using inv qi by (auto simp: bucket_inv_def)
    moreover have "logDistance s (nodeId p) = j" using inv[OF j] p by (auto simp: bucket_inv_def)
    ultimately have "i = j" using eq by simp
    with i nj show False by simp
  qed
  show ?case using dj rest disj by simp
qed

lemma gather_distinct:
  assumes "table_inv rt"
  shows "distinct (map nodeId (gather (m_buckets rt) (logDistance (m_selfNodeId rt) tgt) n 0 []))"
proof -
  have len: "length (m_buckets rt) = 160" and s: "length (m_selfNodeId rt) = NODE_ID_LEN"
    using assms by (simp_all add: table_inv_def)
  have inv: "\<And>i. i < length (m_buckets rt) \<Longrightarrow> bucket_inv (m_selfNodeId rt) i (m_buckets rt ! i)"
    using assms by (simp add: table_inv_def)
  have start: "logDistance (m_selfNodeId rt) tgt < length (m_buckets rt)"
    using logDistance_less_self[OF s] len by simp
  obtain js where js: "distinct js" "\<forall>i\<in>set js. i < length (m_buckets rt)"
    "gather (m_buckets rt) (logDistance (m_selfNodeId rt) tgt) n 0 []
       = concat (map (\<lambda>i. m_peers (m_buckets rt ! i)) js)"
    using gather_indices[of "[]" "m_buckets rt" "logDistance (m_selfNodeId rt) tgt" 0 "[]" n] start
    by auto
  show ?thesis unfolding js(3) using inv js(1,2) by (rule distinct_concat_buckets)
qed

lemma partial_sort_sort_key: "partial_sort m key xs = sort_key key xs"
  by (simp add: partial_sort_def Let_def)


lemma gather_wf:
  assumes "table_inv rt" and "p \<in> set (gather (m_buckets rt) (logDistance (m_selfNodeId rt) tgt) n 0 [])"
  shows "length (nodeId p) = NODE_ID_LEN"
proof -
  have len: "length (m_buckets rt) = 160" and s: "length (m_selfNodeId rt) = NODE_ID_LEN"
    using assms(1) by (simp_all add: table_inv_def)
  have start: "logDistance (m_selfNodeId rt) tgt < length (m_buckets rt)"
    using logDistance_less_self[OF s] len by simp
  obtain js where js: "\<forall>i\<in>set js. i < length (m_buckets rt)"
    "gather (m_buckets rt) (logDistance (m_selfNodeId rt) tgt) n 0 []
       = concat (map (\<lambda>i. m_peers (m_buckets rt ! i)) js)"
    using gather_indices[of "[]" "m_buckets rt" "logDistance (m_selfNodeId rt) tgt" 0 "[]" n] start
    by auto
  from assms(2) obtain i where i: "i \<in> set js" and pi: "p \<in> set (m_peers (m_buckets rt ! i))"
    unfolding js(2) by auto
  have "i < 160" using i js(1) len by auto
  then have "bucket_inv (m_selfNodeId rt) i (m_buckets rt ! i)"
    using assms(1) by (simp add: table_inv_def)
  then show ?thesis using pi by (simp add: bucket_inv_def)
qed

lemma sorted_values:
  assumes "sorted (map key xs)" and "\<forall>x\<in>set xs. length (key x) = l"
  shows "sorted (map (\<lambda>x. NodeId_value (key x)) xs)"
proof -
  have "sorted_wrt (\<lambda>x y. key x \<le> key y) xs" using assms(1) by (simp add: sorted_map)
  moreover have "\<And>x y. x \<in> set xs \<Longrightarrow> y \<in> set xs \<Longrightarrow> key x \<le> key y \<Longrightarrow>
                   NodeId_value (key x) \<le> NodeId_value (key y)"
  proof -
    fix x y assume "x \<in> set xs" "y \<in> set xs" and le: "key x \<le> key y"
    then have "length (key y) = length (key x)" using assms(2) by simp
    then have "key y < key x \<longleftrightarrow> NodeId_value (key y) < NodeId_value (key x)"
      by (rule NodeId_less_iff_value)
    then show "NodeId_value (key x) \<le> NodeId_value (key y)" using le by auto
  qed
  ultimately have "sorted_wrt (\<lambda>x y. NodeId_value (key x) \<le> NodeId_value (key y)) xs"
    by (rule sorted_wrt_mono_rel[rotated])
  then show ?thesis by (simp add: sorted_map)
qed

section \<open>Adding a peer and finding it again\<close>

lemma reachable_fold:
  assumes "reachable rt"
  shows "reachable (fold (\<lambda>j rt. snd (RoutingTable_addPeer mk (peer0 (of_nat j)) rt)) js rt)"
  using assms
proof (induction js arbitrary: rt)
  case Nil
  then show ?case by simp
next
  case (Cons j js)
  have "length (nodeId (peer0 (of_nat j))) = NODE_ID_LEN"
    by (simp add: peer0_def NODE_ID_LEN_def)
  then have "reachable (snd (RoutingTable_addPeer mk (peer0 (of_nat j)) rt))"
    using Cons.prems by (intro reachable.addPeer)
  then show ?case using Cons.IH by simp
qed

lemma reachable_table0: "reachable table0"
  unfolding table0_def by (rule reachable.init) (simp add: self0_def NODE_ID_LEN_def)

lemma reachable_full_table: "reachable full_table"
  unfolding full_table_def using reachable_table0 by (rule reachable_fold)

lemma find_if_append_new:
  "\<forall>x\<in>set xs. \<not> P x \<Longrightarrow> P y \<Longrightarrow> find_if P (xs @ [y]) = length xs"
  by (induction xs) auto

lemma KBucket_find_after_add:
  assumes "isValid p"
    and "nodeId p \<in> nodeId ` set (m_peers b) \<or> length (m_peers b) < m_maxSize b"
  shows "KBucket_add mk p b = (Inr (), snd (KBucket_add mk p b))
       \<and> KBucket_find (nodeId p) (snd (KBucket_add mk p b)) = Some p"
proof (cases "find_if (\<lambda>q. nodeId q = nodeId p) (m_peers b) < length (m_peers b)")
  case True
  let ?it = "find_if (\<lambda>q. nodeId q = nodeId p) (m_peers b)"
  have "find_if (\<lambda>q. nodeId q = nodeId p) ((m_peers b)[?it := p]) = ?it"
    using True by (intro find_if_update) simp_all
  then show ?thesis using True assms(1)
    by (simp add: KBucket_add_existing KBucket_find_def Let_def)
next
  case False
  then have "find_if (\<lambda>q. nodeId q = nodeId p) (m_peers b) = length (m_peers b)"
    using find_if_le[of "\<lambda>q. nodeId q = nodeId p" "m_peers b"] by simp
  then have none: "\<forall>q\<in>set (m_peers b). nodeId q \<noteq> nodeId p" by (simp add: find_if_end)
  then have room: "length (m_peers b) < m_maxSize b" using assms(2) by force
  have "find_if (\<lambda>q. nodeId q = nodeId p) (m_peers b @ [p]) = length (m_peers b)"
    using none by (intro find_if_append_new) simp_all
  then show ?thesis using assms(1) none room
    by (simp add: KBucket_add_append KBucket_find_def Let_def)
qed

lemma findPeer_after_addPeer:
  assumes "logDistance (m_selfNodeId rt) (nodeId p) < length (m_buckets rt)" and "isValid p"
    and "nodeId p \<in> nodeId ` set (m_peers (m_buckets rt ! logDistance (m_selfNodeId rt) (nodeId p)))
         \<or> length (m_peers (m_buckets rt ! logDistance (m_selfNodeId rt) (nodeId p)))
             < m_maxSize (m_buckets rt ! logDistance (m_selfNodeId rt) (nodeId p))"
  shows "fst (RoutingTable_addPeer mk p rt) = Inr ()
       \<and> findPeer (nodeId p) (snd (RoutingTable_addPeer mk p rt)) = Some p"
proof -
  let ?i = "logDistance (m_selfNodeId rt) (nodeId p)"
  note k = KBucket_find_after_add[OF assms(2,3), of mk]
  have "fst (KBucket_add mk p (m_buckets rt ! ?i)) = Inr ()" using k by (metis fst_conv)
  then show ?thesis using assms(1) k
    by (simp add: RoutingTable_addPeer_in_range findPeer_def Let_def)
qed


section \<open>Claims about NodeId\<close>

text \<open>
  C8. For well-formed identifiers \<open>a\<close> and \<open>b\<close>: if \<open>i\<close> is the index of the first non-zero
  byte \<open>B\<close> of \<open>a XOR b\<close>, scanning from the most significant byte, then
  \<open>logDistance a b = (19 - i) * 8 + (7 - countl_zero B)\<close>; such an index exists whenever
  \<open>a \<noteq> b\<close>; \<open>logDistance a a = 0\<close>; and for \<open>a = [1,0,...,0]\<close>, \<open>b = [2,0,...,0]\<close> the
  result is 153.
\<close>

theorem logDistance_formula:
  assumes "length a = NODE_ID_LEN" and "length b = NODE_ID_LEN"
  shows "(\<forall>i<NODE_ID_LEN. distanceTo a b ! i \<noteq> 0 \<and> (\<forall>j<i. distanceTo a b ! j = 0) \<longrightarrow>
            logDistance a b = (19 - i) * 8 + (7 - countl_zero (distanceTo a b ! i)))
       \<and> (a \<noteq> b \<longrightarrow> (\<exists>i<NODE_ID_LEN. distanceTo a b ! i \<noteq> 0 \<and> (\<forall>j<i. distanceTo a b ! j = 0)))
       \<and> logDistance a a = 0
       \<and> logDistance [1, 0, 0, 0, 0, 0, 0, 0, 0, 0, 0, 0, 0, 0, 0, 0, 0, 0, 0, 0]
                      [2, 0, 0, 0, 0, 0, 0, 0, 0, 0, 0, 0, 0, 0, 0, 0, 0, 0, 0, 0] = 153"
proof (intro conjI allI impI)
  let ?d = "distanceTo a b"
  have len: "length ?d = 20" using assms by (simp add: length_distanceTo NODE_ID_LEN_def)
  show "logDistance a a = 0" by (rule logDistance_self)
  show "logDistance [1, 0, 0, 0, 0, 0, 0, 0, 0, 0, 0, 0, 0, 0, 0, 0, 0, 0, 0, 0]
                    [2, 0, 0, 0, 0, 0, 0, 0, 0, 0, 0, 0, 0, 0, 0, 0, 0, 0, 0, 0] = 153"
    by (simp add: logDistance_def distanceTo_def countl_zero_def)
  { fix i assume i: "i < NODE_ID_LEN" and h: "?d ! i \<noteq> 0 \<and> (\<forall>j<i. ?d ! j = 0)"
    have "find_if_not (\<lambda>b. b = 0) ?d = i"
      using i h len by (intro find_if_not_first) (auto simp: NODE_ID_LEN_def)
    then show "logDistance a b = (19 - i) * 8 + (7 - countl_zero (?d ! i))"
      using i len by (simp add: logDistance_def Let_def NODE_ID_LEN_def) }
  { assume ne: "a \<noteq> b"
    let ?i = "find_if_not (\<lambda>b. b = 0) ?d"
    have "\<not> (\<forall>x\<in>set ?d. x = 0)" using distanceTo_eq_zero[of a b] assms ne by auto
    then have "?i \<noteq> length ?d" by (simp add: find_if_not_all)
    then have lt: "?i < length ?d" using find_if_not_le[of "\<lambda>b. b = 0" ?d] by simp
    have "?d ! ?i \<noteq> 0" using find_if_not_hit[OF lt] .
    moreover have "\<forall>j<?i. ?d ! j = 0" using find_if_not_before[of _ "\<lambda>b. b = 0" ?d] by blast
    ultimately show "\<exists>i<NODE_ID_LEN. ?d ! i \<noteq> 0 \<and> (\<forall>j<i. ?d ! j = 0)"
      using lt len by (auto simp: NODE_ID_LEN_def) }
qed

text \<open>The formula at \<open>self0\<close> and the identifier of peer 5: the first bytes differ, their
  XOR is 3 with six leading zeros, so the distance class is 153.\<close>

theorem logDistance_formula_witness:
  "length self0 = NODE_ID_LEN \<and> length (nodeId (peer0 5)) = NODE_ID_LEN
   \<and> distanceTo self0 (nodeId (peer0 5)) ! 0 = 3
   \<and> countl_zero 3 = 6
   \<and> logDistance self0 (nodeId (peer0 5)) = 153"
proof -
  have la: "length self0 = NODE_ID_LEN" and lb: "length (nodeId (peer0 5)) = NODE_ID_LEN"
    by (simp_all add: self0_def peer0_def NODE_ID_LEN_def)
  have d0: "distanceTo self0 (nodeId (peer0 5)) ! 0 = 3"
    by (simp add: self0_def peer0_def distanceTo_def)
  have c: "countl_zero 3 = 6" by (simp add: countl_zero_def)
  have "0 < NODE_ID_LEN" by (simp add: NODE_ID_LEN_def)
  then have "logDistance self0 (nodeId (peer0 5))
               = (19 - 0) * 8 + (7 - countl_zero (distanceTo self0 (nodeId (peer0 5)) ! 0))"
    using logDistance_formula[OF la lb] d0 by auto
  then show ?thesis using la lb d0 c by simp
qed

section \<open>Claims about the routing table\<close>

text \<open>
  C7. In every reachable routing table, for every target and every \<open>n\<close>,
  \<open>findClosestPeers\<close> returns at most \<open>n\<close> peers, sorted in non-decreasing order of the XOR
  distance of their identifiers to the target, both as byte arrays compared
  lexicographically and as the unsigned integers they encode, and no two of them have
  the same identifier.
\<close>

theorem findClosestPeers_sorted_distinct:
  assumes "reachable rt"
  shows "length (findClosestPeers tgt n rt) \<le> n
       \<and> sorted (map (\<lambda>p. distanceTo (nodeId p) tgt) (findClosestPeers tgt n rt))
       \<and> sorted (map (\<lambda>p. NodeId_value (distanceTo (nodeId p) tgt)) (findClosestPeers tgt n rt))
       \<and> distinct (map nodeId (findClosestPeers tgt n rt))"
proof -
  let ?g = "gather (m_buckets rt) (logDistance (m_selfNodeId rt) tgt) n 0 []"
  let ?key = "\<lambda>p. distanceTo (nodeId p) tgt"
  let ?m = "min n (length ?g)"
  have inv: "table_inv rt" using assms by (rule reachable_inv)
  have res: "findClosestPeers tgt n rt = take ?m (sort_key ?key ?g)"
    by (simp add: findClosestPeers_def Let_def partial_sort_sort_key)
  have l: "length (take ?m (sort_key ?key ?g)) \<le> n" by simp
  have s: "sorted (map ?key (take ?m (sort_key ?key ?g)))"
    unfolding take_map[symmetric] by (rule sorted_wrt_take) (rule sorted_sort_key)
  have "\<forall>p\<in>set (take ?m (sort_key ?key ?g)). length (?key p) = min NODE_ID_LEN (length tgt)"
  proof
    fix p assume "p \<in> set (take ?m (sort_key ?key ?g))"
    then have "p \<in> set ?g" using set_take_subset[of ?m "sort_key ?key ?g"] by auto
    then have "length (nodeId p) = NODE_ID_LEN" using inv by (intro gather_wf)
    then show "length (?key p) = min NODE_ID_LEN (length tgt)" by (simp add: length_distanceTo)
  qed
  with s have v: "sorted (map (\<lambda>p. NodeId_value (?key p)) (take ?m (sort_key ?key ?g)))"
    by (rule sorted_values)
  have d: "distinct (map nodeId (take ?m (sort_key ?key ?g)))"
  proof -
    have "distinct (map nodeId ?g)" using inv by (rule gather_distinct)
    then have "distinct (map nodeId (sort_key ?key ?g))"
      by (simp add: distinct_map)
    then show ?thesis unfolding take_map[symmetric] by (rule distinct_take)
  qed
  show ?thesis unfolding res using l s v d by blast
qed

text \<open>The three peers of the full table closest to the identifier of peer 7 are peers 7, 6
  and 5 (distances 0, 1 and 2 in the last byte).\<close>

theorem findClosestPeers_sorted_distinct_witness:
  "reachable full_table
   \<and> map nodeId (findClosestPeers (nodeId (peer0 7)) 3 full_table)
       = [nodeId (peer0 7), nodeId (peer0 6), nodeId (peer0 5)]
   \<and> length (findClosestPeers (nodeId (peer0 7)) 3 full_table) \<le> 3
   \<and> sorted (map (\<lambda>p. distanceTo (nodeId p) (nodeId (peer0 7)))
               (findClosestPeers (nodeId (peer0 7)) 3 full_table))
   \<and> sorted (map (\<lambda>p. NodeId_value (distanceTo (nodeId p) (nodeId (peer0 7))))
               (findClosestPeers (nodeId (peer0 7)) 3 full_table))
   \<and> distinct (map nodeId (findClosestPeers (nodeId (peer0 7)) 3 full_table))"
proof -
  have e: "map nodeId (findClosestPeers (nodeId (peer0 7)) 3 full_table)
             = [nodeId (peer0 7), nodeId (peer0 6), nodeId (peer0 5)]"
    by code_simp
  show ?thesis
    using reachable_full_table e
      findClosestPeers_sorted_distinct[OF reachable_full_table, of "nodeId (peer0 7)" 3]
    by blast
qed


text \<open>
  C1 (as stated: a peer whose identifier is the table's own is rejected and never
  stored). Refuted on the empty table of \<open>self0\<close>: the valid peer that carries \<open>self0\<close>
  is accepted and found afterwards.
\<close>

theorem addPeer_self_counterexample:
  "nodeId self_peer = m_selfNodeId table0
   \<and> fst (RoutingTable_addPeer make_address0 self_peer table0) = Inr ()
   \<and> findPeer (m_selfNodeId table0) (snd (RoutingTable_addPeer make_address0 self_peer table0))
       = Some self_peer"
  by code_simp

text \<open>
  C1 (amended). \<^verbatim>\<open>addPeer\<close> has no check against the table's own identifier. In a
  reachable table a peer \<open>p\<close> with \<open>nodeId p = self\<close> is treated like any other peer: it is
  answered \<open>InvalidPeer\<close> exactly when \<open>p\<close> is not valid, and the table is unchanged
  then; a valid one is filed under bucket 0 (the log-distance of \<open>self\<close> to itself) and is
  stored and found there whenever bucket 0 already holds that identifier or has fewer
  than 20 peers.
\<close>

theorem addPeer_self_amended:
  assumes "reachable rt" and "nodeId p = m_selfNodeId rt"
  shows "(fst (RoutingTable_addPeer mk p rt) = Inl (Unexpected InvalidPeer) \<longleftrightarrow> \<not> isValid p)
       \<and> (\<not> isValid p \<longrightarrow> RoutingTable_addPeer mk p rt = (Inl (Unexpected InvalidPeer), rt))
       \<and> (isValid p \<and> (nodeId p \<in> nodeId ` set (m_peers (m_buckets rt ! 0))
                        \<or> length (m_peers (m_buckets rt ! 0)) < 20) \<longrightarrow>
            fst (RoutingTable_addPeer mk p rt) = Inr ()
            \<and> findPeer (m_selfNodeId rt) (snd (RoutingTable_addPeer mk p rt)) = Some p)"
proof -
  have inv: "table_inv rt" using assms(1) by (rule reachable_inv)
  have i: "logDistance (m_selfNodeId rt) (nodeId p) = 0" using assms(2) by (simp add: logDistance_self)
  have len: "length (m_buckets rt) = 160" using inv by (simp add: table_inv_def)
  have mx: "m_maxSize (m_buckets rt ! 0) = 20" using inv by (simp add: table_inv_def bucket_inv_def)
  have r: "logDistance (m_selfNodeId rt) (nodeId p) < length (m_buckets rt)" using i len by simp
  have a: "\<not> isValid p \<Longrightarrow> RoutingTable_addPeer mk p rt = (Inl (Unexpected InvalidPeer), rt)"
    using r by (simp add: RoutingTable_addPeer_in_range KBucket_add_invalid)
  have b: "isValid p \<Longrightarrow> fst (RoutingTable_addPeer mk p rt) \<noteq> Inl (Unexpected InvalidPeer)"
    using r by (simp add: RoutingTable_addPeer_in_range KBucket_add_valid)
  have c: "isValid p \<Longrightarrow> nodeId p \<in> nodeId ` set (m_peers (m_buckets rt ! 0))
                        \<or> length (m_peers (m_buckets rt ! 0)) < 20 \<Longrightarrow>
            fst (RoutingTable_addPeer mk p rt) = Inr ()
            \<and> findPeer (m_selfNodeId rt) (snd (RoutingTable_addPeer mk p rt)) = Some p"
    using findPeer_after_addPeer[OF r, of mk] i mx assms(2) by simp
  have "fst (RoutingTable_addPeer mk p rt) = Inl (Unexpected InvalidPeer) \<longleftrightarrow> \<not> isValid p"
    using a b by (cases "isValid p") simp_all
  then show ?thesis using a c by blast
qed

text \<open>On the full table of the examples, bucket 0 is empty: the peer that carries \<open>self0\<close> is
  stored there and not answered \<open>InvalidPeer\<close>; the same peer with port 0 is refused as
  invalid.\<close>

theorem addPeer_self_amended_witness:
  "reachable full_table \<and> nodeId self_peer = m_selfNodeId full_table
   \<and> \<not> isValid (self_peer\<lparr>port := 0\<rparr>)
   \<and> RoutingTable_addPeer make_address0 (self_peer\<lparr>port := 0\<rparr>) full_table
       = (Inl (Unexpected InvalidPeer), full_table)
   \<and> isValid self_peer \<and> length (m_peers (m_buckets full_table ! 0)) < 20
   \<and> fst (RoutingTable_addPeer make_address0 self_peer full_table) \<noteq> Inl (Unexpected InvalidPeer)
   \<and> findPeer (m_selfNodeId full_table) (snd (RoutingTable_addPeer make_address0 self_peer full_table))
       = Some self_peer"
proof -
  have s: "nodeId self_peer = m_selfNodeId full_table" by code_simp
  have s': "nodeId (self_peer\<lparr>port := 0\<rparr>) = m_selfNodeId full_table" by code_simp
  have v: "isValid self_peer" by code_simp
  have v': "\<not> isValid (self_peer\<lparr>port := 0\<rparr>)" by code_simp
  have e: "length (m_peers (m_buckets full_table ! 0)) < 20" by code_simp
  show ?thesis
    using reachable_full_table s v v' e
      addPeer_self_amended[OF reachable_full_table s, of make_address0]
      addPeer_self_amended[OF reachable_full_table s', of make_address0]
    by blast
qed


text \<open>
  C2 (as stated: after a successful \<^verbatim>\<open>addPeer\<close> the peer is found, the full-bucket path
  included). Refuted on the full table: bucket 153 holds peers 1 to 20, peer 21 belongs
  to the same bucket, \<^verbatim>\<open>addPeer\<close> returns success, and peer 21 is not found while the
  twenty old occupants are all still there.
\<close>

theorem addPeer_full_bucket_counterexample:
  "isValid (peer0 21)
   \<and> fst (RoutingTable_addPeer make_address0 (peer0 21) full_table) = Inr ()
   \<and> findPeer (nodeId (peer0 21)) (snd (RoutingTable_addPeer make_address0 (peer0 21) full_table)) = None
   \<and> m_peers (m_buckets (snd (RoutingTable_addPeer make_address0 (peer0 21) full_table)) ! 153)
       = m_peers (m_buckets full_table ! 153)
   \<and> length (m_peers (m_buckets full_table ! 153)) = 20"
  by code_simp

text \<open>
  C2 (amended). In a reachable table, for a peer \<open>p\<close> with a well-formed identifier: if
  \<^verbatim>\<open>addPeer\<close> returns success and the bucket of \<open>p\<close> already holds its identifier or has
  fewer peers than its capacity, then \<^verbatim>\<open>findPeer\<close> on that identifier returns \<open>p\<close>.
\<close>

theorem addPeer_then_findPeer:
  assumes "reachable rt" and "length (nodeId p) = NODE_ID_LEN"
    and "fst (RoutingTable_addPeer mk p rt) = Inr ()"
    and "nodeId p \<in> nodeId ` set (m_peers (m_buckets rt ! logDistance (m_selfNodeId rt) (nodeId p)))
         \<or> length (m_peers (m_buckets rt ! logDistance (m_selfNodeId rt) (nodeId p)))
             < m_maxSize (m_buckets rt ! logDistance (m_selfNodeId rt) (nodeId p))"
  shows "findPeer (nodeId p) (snd (RoutingTable_addPeer mk p rt)) = Some p"
proof -
  have inv: "table_inv rt" using assms(1) by (rule reachable_inv)
  then have "length (m_selfNodeId rt) = NODE_ID_LEN" and len: "length (m_buckets rt) = 160"
    by (simp_all add: table_inv_def)
  then have r: "logDistance (m_selfNodeId rt) (nodeId p) < length (m_buckets rt)"
    using logDistance_less[OF _ assms(2)] by simp
  have "isValid p"
  proof (rule ccontr)
    assume "\<not> isValid p"
    then have "fst (RoutingTable_addPeer mk p rt) = Inl (Unexpected InvalidPeer)"
      using r by (simp add: RoutingTable_addPeer_in_range KBucket_add_invalid)
    with assms(3) show False by simp
  qed
  then show ?thesis using findPeer_after_addPeer[OF r _ assms(4), of mk] by simp
qed

text \<open>Peer 1 is added to the empty table of \<open>self0\<close> and found.\<close>

theorem addPeer_then_findPeer_witness:
  "reachable table0 \<and> length (nodeId (peer0 1)) = NODE_ID_LEN
   \<and> fst (RoutingTable_addPeer make_address0 (peer0 1) table0) = Inr ()
   \<and> length (m_peers (m_buckets table0 ! logDistance (m_selfNodeId table0) (nodeId (peer0 1))))
       < m_maxSize (m_buckets table0 ! logDistance (m_selfNodeId table0) (nodeId (peer0 1)))
   \<and> findPeer (nodeId (peer0 1)) (snd (RoutingTable_addPeer make_address0 (peer0 1) table0))
       = Some (peer0 1)"
proof -
  have l: "length (nodeId (peer0 1)) = NODE_ID_LEN" by code_simp
  have ok: "fst (RoutingTable_addPeer make_address0 (peer0 1) table0) = Inr ()" by code_simp
  have room: "length (m_peers (m_buckets table0 ! logDistance (m_selfNodeId table0) (nodeId (peer0 1))))
       < m_maxSize (m_buckets table0 ! logDistance (m_selfNodeId table0) (nodeId (peer0 1)))"
    by code_simp
  show ?thesis
    using reachable_table0 l ok room
      addPeer_then_findPeer[OF reachable_table0 l ok disjI2[OF room]]
    by blast
qed

section \<open>Claims about a single bucket\<close>

text \<open>
  C3 (as stated: a peer whose identifier is already in the bucket replaces the entry and
  moves to the tail, keeping the least-recently-seen-first order). Refuted on a bucket
  of two peers in that order: the first one, seen again, stays in front, so the bucket
  is no longer ordered by \<^verbatim>\<open>lastSeen\<close> and its tail is the other peer.
\<close>

theorem KBucket_add_existing_counterexample:
  "isValid seen_again \<and> nodeId seen_again \<in> nodeId ` set (m_peers bucket2)
   \<and> sorted (map lastSeen (m_peers bucket2))
   \<and> m_peers (snd (KBucket_add make_address0 seen_again bucket2))
       = [seen_again, (peer0 2)\<lparr>lastSeen := 2\<rparr>]
   \<and> last (m_peers (snd (KBucket_add make_address0 seen_again bucket2))) \<noteq> seen_again
   \<and> \<not> sorted (map lastSeen (m_peers (snd (KBucket_add make_address0 seen_again bucket2))))"
  by code_simp

text \<open>
  C3 (amended). For every bucket and every valid peer \<open>p\<close> whose identifier already occurs
  in it, \<^verbatim>\<open>add\<close> succeeds and overwrites the first entry with that identifier by \<open>p\<close> at
  the position where it stands: the length of the sequence, the other entries and the
  order of the identifiers are unchanged; nothing moves to the tail.
\<close>

theorem KBucket_add_existing_in_place:
  assumes "isValid p" and "nodeId p \<in> nodeId ` set (m_peers b)"
  shows "(\<exists>i<length (m_peers b).
            nodeId (m_peers b ! i) = nodeId p \<and> (\<forall>j<i. nodeId (m_peers b ! j) \<noteq> nodeId p)
            \<and> KBucket_add mk p b = (Inr (), b\<lparr>m_peers := (m_peers b)[i := p]\<rparr>))
       \<and> map nodeId (m_peers (snd (KBucket_add mk p b))) = map nodeId (m_peers b)"
proof -
  let ?it = "find_if (\<lambda>q. nodeId q = nodeId p) (m_peers b)"
  have "\<not> (\<forall>q\<in>set (m_peers b). nodeId q \<noteq> nodeId p)" using assms(2) by force
  then have "?it \<noteq> length (m_peers b)" by (simp add: find_if_end)
  then have lt: "?it < length (m_peers b)"
    using find_if_le[of "\<lambda>q. nodeId q = nodeId p" "m_peers b"] by simp
  have same: "nodeId (m_peers b ! ?it) = nodeId p" using find_if_hit[OF lt] by simp
  have before: "\<forall>j<?it. nodeId (m_peers b ! j) \<noteq> nodeId p"
    using find_if_before[of _ "\<lambda>q. nodeId q = nodeId p" "m_peers b"] by blast
  have eq: "KBucket_add mk p b = (Inr (), b\<lparr>m_peers := (m_peers b)[?it := p]\<rparr>)"
    using assms(1) lt by (rule KBucket_add_existing)
  have "map nodeId (m_peers (snd (KBucket_add mk p b))) = map nodeId (m_peers b)"
    using map_update_same[OF lt same] by (simp add: eq)
  then show ?thesis using lt same before eq by blast
qed

text \<open>The bucket of two peers again: the fresh observation of peer 1 takes the place of
  the old one, in front of peer 2.\<close>

theorem KBucket_add_existing_in_place_witness:
  "isValid seen_again \<and> nodeId seen_again \<in> nodeId ` set (m_peers bucket2)
   \<and> KBucket_add make_address0 seen_again bucket2
       = (Inr (), bucket2\<lparr>m_peers := (m_peers bucket2)[0 := seen_again]\<rparr>)
   \<and> map nodeId (m_peers (snd (KBucket_add make_address0 seen_again bucket2)))
       = map nodeId (m_peers bucket2)"
proof -
  have v: "isValid seen_again" by code_simp
  have m: "nodeId seen_again \<in> nodeId ` set (m_peers bucket2)" by code_simp
  have z: "nodeId (m_peers bucket2 ! 0) = nodeId seen_again" by code_simp
  obtain i where i: "i < length (m_peers bucket2)"
      "\<forall>j<i. nodeId (m_peers bucket2 ! j) \<noteq> nodeId seen_again"
      "KBucket_add make_address0 seen_again bucket2
         = (Inr (), bucket2\<lparr>m_peers := (m_peers bucket2)[i := seen_again]\<rparr>)"
    and k: "map nodeId (m_peers (snd (KBucket_add make_address0 seen_again bucket2)))
       = map nodeId (m_peers bucket2)"
    using KBucket_add_existing_in_place[OF v m, of make_address0] by blast
  have "i = 0" using i(2) z by (cases i) auto
  then show ?thesis using v m i(3) k by simp
qed


section \<open>Claims about the DHT facade\<close>

text \<open>
  C10. In every DHT state whose peer count equals \<open>maxPeers\<close>, \<^verbatim>\<open>DHT::addPeer\<close> returns
  \<open>PeerLimitExceeded\<close> for every peer and leaves the state unchanged, also for a peer
  whose identifier is already in the table: the limit check comes first.
\<close>

theorem DHT_addPeer_limit:
  assumes "getPeerCount (m_routingTable dht) = maxPeers (m_config dht)"
  shows "DHT_addPeer mk now p dht = (Inl (Unexpected PeerLimitExceeded), dht)"
  using assms by (simp add: DHT_addPeer_def)

text \<open>With \<open>maxPeers = 1\<close> and peer 1 in the table, a fresh observation of peer 1 is
  refused, although its identifier is present.\<close>

theorem DHT_addPeer_limit_witness:
  "getPeerCount (m_routingTable dht1) = maxPeers (m_config dht1)
   \<and> getPeer (nodeId seen_again) dht1 = Some ((peer0 1)\<lparr>lastSeen := now0\<rparr>)
   \<and> isValid seen_again
   \<and> DHT_addPeer make_address0 (now0 + 1) seen_again dht1 = (Inl (Unexpected PeerLimitExceeded), dht1)"
proof -
  have c: "getPeerCount (m_routingTable dht1) = maxPeers (m_config dht1)" by code_simp
  have g: "getPeer (nodeId seen_again) dht1 = Some ((peer0 1)\<lparr>lastSeen := now0\<rparr>)" by code_simp
  have v: "isValid seen_again" by code_simp
  show ?thesis using c g v DHT_addPeer_limit[OF c, of make_address0 "now0 + 1" seen_again] by blast
qed

text \<open>
  C4 (the code at the failing input). The peer of the test \<^verbatim>\<open>StalePeerRemoval\<close> carries
  \<open>lastSeen = now0 - 5 s\<close>, but \<^verbatim>\<open>DHT::addPeer\<close> stores it with \<open>lastSeen = now0\<close>. A
  \<^verbatim>\<open>refresh\<close> that reads the clock at the same tick, or at any tick less than one second
  later, keeps the peer: \<^verbatim>\<open>getPeer\<close> still returns it. Only a \<^verbatim>\<open>refresh\<close> one second or
  more after the call of \<^verbatim>\<open>addPeer\<close> removes it.
\<close>

theorem stale_peer_survives_refresh:
  "staleThreshold (m_config dht0) = 1
   \<and> lastSeen old_peer = now0 - 5 * ticks_per_second
   \<and> fst (DHT_addPeer make_address0 now0 old_peer dht0) = Inr ()
   \<and> getPeer (nodeId old_peer) (refresh (clock_at now0) (snd (DHT_addPeer make_address0 now0 old_peer dht0)))
       = Some (old_peer\<lparr>lastSeen := now0\<rparr>)
   \<and> getPeer (nodeId old_peer)
        (refresh (clock_at (now0 + ticks_per_second - 1)) (snd (DHT_addPeer make_address0 now0 old_peer dht0)))
       = Some (old_peer\<lparr>lastSeen := now0\<rparr>)
   \<and> getPeer (nodeId old_peer)
        (refresh (clock_at (now0 + ticks_per_second)) (snd (DHT_addPeer make_address0 now0 old_peer dht0)))
       = None"
  by code_simp


section \<open>Claims about the RPC endpoint\<close>

text \<open>
  C5 (the code at the failing input). The endpoint of the node \<open>self0\<close> processes the PING
  of peer 1. The reply it hands to the socket, whatever the serializer, is the text of a
  PING whose target is peer 1, but whose sender is the all-zero identifier
  \<^verbatim>\<open>NodeId{}\<close>, not \<open>self0\<close>.
\<close>

theorem respondToPing_sender_zero:
  "m_selfNodeId (m_routingTable (m_dht rpc0)) = self0
   \<and> NodeId_toString self0 = ''0100000000000000000000000000000000000000''
   \<and> snd (processMessage serialize ping0 endpoint0 rpc0)
       = [sendMessage serialize \<lparr>type = PING, sender = NodeId_zero, target = sender ping0,
                                  msg_value = [], closestNodes = []\<rparr> endpoint0]
   \<and> snd (processMessage serialize ping0 endpoint0 rpc0)
       = [(serialize (JObject [(''type'', JNumber 0),
                               (''sender'', JString ''0000000000000000000000000000000000000000''),
                               (''target'', JString ''0200000000000000000000000000000000000001'')]),
           endpoint0)]
   \<and> NodeId_zero \<noteq> self0"
proof -
  have a: "m_selfNodeId (m_routingTable (m_dht rpc0)) = self0" by code_simp
  have b: "NodeId_toString self0 = ''0100000000000000000000000000000000000000''" by code_simp
  have t: "type ping0 = PING" by (simp add: ping0_def)
  have c: "snd (processMessage serialize ping0 endpoint0 rpc0)
       = [sendMessage serialize \<lparr>type = PING, sender = NodeId_zero, target = sender ping0,
                                  msg_value = [], closestNodes = []\<rparr> endpoint0]"
    using t by (simp add: processMessage_def respondToPing_def)
  have j: "jsonMsg \<lparr>type = PING, sender = NodeId_zero, target = sender ping0,
                     msg_value = [], closestNodes = []\<rparr>
             = JObject [(''type'', JNumber 0),
                        (''sender'', JString ''0000000000000000000000000000000000000000''),
                        (''target'', JString ''0200000000000000000000000000000000000001'')]"
    by code_simp
  have d: "NodeId_zero \<noteq> self0" by code_simp
  show ?thesis using a b c d by (simp add: sendMessage_def j)
qed

text \<open>
  C6 (as stated: the sender of every inbound message is offered to \<^verbatim>\<open>addPeer\<close> before
  the message is dispatched). Refuted on the endpoint of the node \<open>self0\<close> with an empty
  table: \<^verbatim>\<open>processMessage\<close> answers the PING of peer 1 from \<open>endpoint0\<close>, and afterwards
  peer 1 is not in the table, whereas offering the sender (address and port of
  \<open>endpoint0\<close>, \<open>lastSeen = now0\<close>) to \<^verbatim>\<open>addPeer\<close> would have put it there.
\<close>

theorem processMessage_sender_counterexample:
  "snd (processMessage serialize0 ping0 endpoint0 rpc0) = [respondToPing serialize0 ping0 endpoint0]
   \<and> getPeer (sender ping0) (m_dht rpc0) = None
   \<and> m_dht (fst (processMessage serialize0 ping0 endpoint0 rpc0)) = m_dht rpc0
   \<and> getPeer (sender ping0) (m_dht (fst (processMessage serialize0 ping0 endpoint0 rpc0))) = None
   \<and> getPeer (sender ping0)
        (snd (DHT_addPeer make_address0 now0
               \<lparr>ipAddress = fst endpoint0, port = snd endpoint0, lastSeen = now0,
                  nodeId = sender ping0, isExpired = False\<rparr>
               (m_dht rpc0)))
       = Some \<lparr>ipAddress = fst endpoint0, port = snd endpoint0, lastSeen = now0,
                nodeId = sender ping0, isExpired = False\<rparr>"
proof -
  have t: "type ping0 = PING" by (simp add: ping0_def)
  have a: "snd (processMessage serialize0 ping0 endpoint0 rpc0) = [respondToPing serialize0 ping0 endpoint0]"
    using t by (simp add: processMessage_def)
  have b: "m_dht (fst (processMessage serialize0 ping0 endpoint0 rpc0)) = m_dht rpc0"
    using t by (simp add: processMessage_def)
  have c: "getPeer (sender ping0) (m_dht rpc0) = None" by code_simp
  have d: "getPeer (sender ping0)
        (snd (DHT_addPeer make_address0 now0
               \<lparr>ipAddress = fst endpoint0, port = snd endpoint0, lastSeen = now0,
                  nodeId = sender ping0, isExpired = False\<rparr>
               (m_dht rpc0)))
       = Some \<lparr>ipAddress = fst endpoint0, port = snd endpoint0, lastSeen = now0,
                nodeId = sender ping0, isExpired = False\<rparr>"
    by code_simp
  show ?thesis using a b c d by simp
qed

text \<open>
  C6 (amended). \<^verbatim>\<open>processMessage\<close>, through which every inbound message is dispatched,
  does for a message of each type exactly what its type-specific handler does, and
  never offers the sender to the routing table. A PING is answered by one PING reply to
  the sending endpoint, with the original sender as target; a
  STORE binds the value to the target in the local store and sends nothing; a
  FIND_NODE is answered by one FIND_NODE reply that carries the closest peers of the
  target; a FIND_VALUE is answered by one FIND_VALUE reply that carries the stored
  value, or else the closest peers of the target. In every case the DHT is the same
  before and after, and the local store changes only on STORE.
\<close>

theorem processMessage_dispatch:
  "m_dht (fst (processMessage serialize msg ep st)) = m_dht st
   \<and> (type msg = PING \<longrightarrow>
        (\<exists>s. processMessage serialize msg ep st
               = (st, [(serialize (jsonMsg \<lparr>type = PING, sender = s, target = sender msg,
                                            msg_value = [], closestNodes = []\<rparr>), ep)])))
   \<and> (type msg = STORE \<longrightarrow>
        processMessage serialize msg ep st
          = (st\<lparr>m_localStore := (m_localStore st)(target msg \<mapsto> msg_value msg)\<rparr>, []))
   \<and> (type msg = FIND_NODE \<longrightarrow>
        processMessage serialize msg ep st
          = (st, [(serialize (jsonMsg \<lparr>type = FIND_NODE, sender = getSelfNodeId (m_dht st),
                                       target = target msg, msg_value = [],
                                       closestNodes = DHT_findClosestPeers (target msg) 0 (m_dht st)\<rparr>),
                   ep)]))
   \<and> (type msg = FIND_VALUE \<longrightarrow>
        processMessage serialize msg ep st
          = (st, [(serialize (jsonMsg \<lparr>type = FIND_VALUE, sender = getSelfNodeId (m_dht st),
                                       target = target msg,
                                       msg_value = (case m_localStore st (target msg) of
                                                      Some v \<Rightarrow> v | None \<Rightarrow> []),
                                       closestNodes = (case m_localStore st (target msg) of
                                                         None \<Rightarrow> DHT_findClosestPeers (target msg) 0 (m_dht st)
                                                       | Some v \<Rightarrow> [])\<rparr>),
                   ep)]))"
proof -
  have "type msg = PING \<Longrightarrow>
        processMessage serialize msg ep st
          = (st, [(serialize (jsonMsg \<lparr>type = PING, sender = NodeId_zero, target = sender msg,
                                       msg_value = [], closestNodes = []\<rparr>), ep)])"
    by (simp add: processMessage_def respondToPing_def sendMessage_def)
  then have ping: "type msg = PING \<longrightarrow>
        (\<exists>s. processMessage serialize msg ep st
               = (st, [(serialize (jsonMsg \<lparr>type = PING, sender = s, target = sender msg,
                                            msg_value = [], closestNodes = []\<rparr>), ep)]))"
    by blast
  show ?thesis
    using ping
    by (simp add: processMessage_def storeValue_def respondToFindNode_def
          respondToFindValue_def sendMessage_def Let_def split: Type.splits)
qed

text \<open>The four kinds of message at the endpoint of the examples: each is dispatched, and
  the DHT stays as it was.\<close>

theorem processMessage_dispatch_witness:
  "type ping0 = PING
   \<and> (\<exists>s. processMessage serialize0 ping0 endpoint0 rpc0
            = (rpc0, [(serialize0 (jsonMsg \<lparr>type = PING, sender = s, target = sender ping0,
                                             msg_value = [], closestNodes = []\<rparr>), endpoint0)]))
   \<and> type (ping0\<lparr>type := STORE\<rparr>) = STORE
   \<and> processMessage serialize0 (ping0\<lparr>type := STORE\<rparr>) endpoint0 rpc0
       = (rpc0\<lparr>m_localStore := (m_localStore rpc0)(self0 \<mapsto> [])\<rparr>, [])
   \<and> type (ping0\<lparr>type := FIND_NODE\<rparr>) = FIND_NODE
   \<and> processMessage serialize0 (ping0\<lparr>type := FIND_NODE\<rparr>) endpoint0 rpc0
       = (rpc0, [(serialize0 (jsonMsg \<lparr>type = FIND_NODE, sender = self0, target = self0,
                                        msg_value = [], closestNodes = []\<rparr>), endpoint0)])
   \<and> type (ping0\<lparr>type := FIND_VALUE\<rparr>) = FIND_VALUE
   \<and> processMessage serialize0 (ping0\<lparr>type := FIND_VALUE\<rparr>) endpoint0 rpc0
       = (rpc0, [(serialize0 (jsonMsg \<lparr>type = FIND_VALUE, sender = self0, target = self0,
                                        msg_value = [], closestNodes = []\<rparr>), endpoint0)])
   \<and> m_dht (fst (processMessage serialize0 ping0 endpoint0 rpc0)) = m_dht rpc0"
proof -
  have t: "target ping0 = self0" and v: "msg_value ping0 = []" by (simp_all add: ping0_def)
  have s: "getSelfNodeId (m_dht rpc0) = self0" by code_simp
  have l: "m_localStore rpc0 self0 = None" by code_simp
  have f: "DHT_findClosestPeers self0 0 (m_dht rpc0) = []" by code_simp
  have p: "type ping0 = PING" by (simp add: ping0_def)
  show ?thesis
    using p t v s l f
      processMessage_dispatch[of serialize0 ping0 endpoint0 rpc0]
      processMessage_dispatch[of serialize0 "ping0\<lparr>type := STORE\<rparr>" endpoint0 rpc0]
      processMessage_dispatch[of serialize0 "ping0\<lparr>type := FIND_NODE\<rparr>" endpoint0 rpc0]
      processMessage_dispatch[of serialize0 "ping0\<lparr>type := FIND_VALUE\<rparr>" endpoint0 rpc0]
    by simp
qed


section \<open>What the wire form carries\<close>












section \<open>Claims about the wire format\<close>





end
